theory Spec2Isabelle
  imports Complex_Main "HOL-Library.Word"
begin

unbundle bit_operations_syntax

text \<open>
  A shallow embedding of the resilience layer of the AfriOne Hedera services
  (\<^verbatim>\<open>hedera-services/src\<close>): the retry executor, the chunked upload of the file and
  smart-contract services, the transaction monitor, the audit-log encoding of the
  consensus service and the cost tracker, with the properties their specification states.
\<close>

section \<open>JavaScript numbers\<close>

subsection \<open>Finite doubles\<close>

text \<open>
  A JavaScript number is an IEEE 754 double. A finite double is a rational number with a
  significand of at most 53 bits, and every arithmetic operation returns the double nearest
  to the exact result, a tie going to the even significand. \<open>toDouble\<close> rounds with an
  exponent that has no bounds: subnormal numbers are left out (no magnitude below
  \<open>2\<^sup>-\<^sup>1\<^sup>0\<^sup>2\<^sup>2\<close> occurs in the modelled code), and overflow to an infinity is added by
  \<open>fromExact\<close> below, where the code can reach it.
\<close>

text \<open>The number of binary digits of a natural number.\<close>

fun bitLength :: "nat \<Rightarrow> nat" where
  "bitLength n = (if n = 0 then 0 else Suc (bitLength (n div 2)))"

declare bitLength.simps [simp del]

text \<open>For \<open>x > 0\<close>, the integer \<open>k\<close> with \<open>2\<^sup>k \<le> x < 2\<^sup>k\<^sup>+\<^sup>1\<close>.\<close>

definition ilog2 :: "rat \<Rightarrow> int" where
  "ilog2 x =
     (if 1 \<le> x then int (bitLength (nat \<lfloor>x\<rfloor>)) - 1
      else - int (bitLength (nat (\<lceil>1 / x\<rceil> - 1))))"

definition pow2 :: "int \<Rightarrow> rat" where
  "pow2 k = (if 0 \<le> k then 2 ^ nat k else 1 / 2 ^ nat (- k))"

text \<open>The integer nearest to \<open>m\<close>, the even one of the two when \<open>m\<close> is halfway.\<close>

definition roundHalfEven :: "rat \<Rightarrow> int" where
  "roundHalfEven m =
     (let q = \<lfloor>m\<rfloor>; r = m - of_int q
      in if r < 1 / 2 then q else if 1 / 2 < r then q + 1 else if even q then q else q + 1)"

text \<open>
  The double nearest to \<open>x\<close>: \<open>x\<close> is scaled by a power of two so that its magnitude lies
  between \<open>2\<^sup>5\<^sup>2\<close> and \<open>2\<^sup>5\<^sup>3\<close>, rounded to an integer, and scaled back.
\<close>

definition toDouble :: "rat \<Rightarrow> rat" where
  "toDouble x =
     (if x = 0 then 0
      else (let e = ilog2 \<bar>x\<bar> - 52
            in sgn x * of_int (roundHalfEven (\<bar>x\<bar> / pow2 e)) * pow2 e))"

definition mulDouble :: "rat \<Rightarrow> rat \<Rightarrow> rat" where
  "mulDouble x y = toDouble (x * y)"

definition addDouble :: "rat \<Rightarrow> rat \<Rightarrow> rat" where
  "addDouble x y = toDouble (x + y)"

subsection \<open>Numbers with infinities and NaN\<close>

text \<open>
  A value of type \<^verbatim>\<open>number\<close>: a finite double by its value, an infinity, or NaN. (The sign
  of a zero is not kept; nothing modelled here depends on it.)
\<close>

datatype number = NaN | NegativeInfinity | Finite rat | Infinity

text \<open>
  The number an operation returns for the exact result \<open>q\<close>: the nearest double, or an
  infinity when that rounding reaches \<open>2\<^sup>1\<^sup>0\<^sup>2\<^sup>4\<close>.
\<close>

definition fromExact :: "rat \<Rightarrow> number" where
  "fromExact q =
     (let d = toDouble q
      in if \<bar>d\<bar> < 2 ^ 1024 then Finite d else if 0 < q then Infinity else NegativeInfinity)"

text \<open>\<^verbatim>\<open>x <= y\<close> and \<^verbatim>\<open>x === y\<close> on numbers: every comparison with NaN is false.\<close>

fun lessEq :: "number \<Rightarrow> number \<Rightarrow> bool" where
  "lessEq NaN y = False"
| "lessEq x NaN = False"
| "lessEq NegativeInfinity y = True"
| "lessEq x Infinity = True"
| "lessEq (Finite a) (Finite b) = (a \<le> b)"
| "lessEq x y = False"

fun strictEquals :: "number \<Rightarrow> number \<Rightarrow> bool" where
  "strictEquals (Finite a) (Finite b) = (a = b)"
| "strictEquals Infinity Infinity = True"
| "strictEquals NegativeInfinity NegativeInfinity = True"
| "strictEquals x y = False"

section \<open>The outside world as the services see it\<close>

type_synonym byte = "8 word"

text \<open>A JavaScript \<^verbatim>\<open>Error\<close>, by its message.\<close>

datatype error = Error string

text \<open>The \<^verbatim>\<open>TypeError\<close> of \<^verbatim>\<open>Buffer.from(undefined)\<close>, with the message Node.js gives it.\<close>

definition bufferFromUndefined :: error where
  "bufferFromUndefined =
     Error (''The first argument must be of type string or an instance of Buffer, ''
            @ ''ArrayBuffer, or Array or an Array-like Object. Received undefined'')"

text \<open>
  The transactions of the Hedera SDK that the modelled methods build, with the fields set
  from the caller's data: the contents of a file create (\<^verbatim>\<open>undefined\<close> is \<open>None\<close>), the
  file and contents of an append, the bytecode file and gas of a contract create, the topic
  and message of a topic submit. Keys, expiration time, memo and constructor parameters are
  passed through by the source unchanged and are left out.
\<close>

datatype tx =
    FileCreateTransaction "byte list option"
  | FileAppendTransaction string "byte list"
  | ContractCreateTransaction string nat
  | TopicMessageSubmitTransaction string "byte list"

record receipt =
  fileId :: "string option"
  contractId :: "string option"
  topicSequenceNumber :: "nat option"

text \<open>
  What a closure does to the outside, in order: a transaction submitted with
  \<^verbatim>\<open>execute(client)\<close>, a receipt requested with \<^verbatim>\<open>getReceipt(client)\<close> for the
  submission with the given transaction id, an HTTP GET of a URL, a \<^verbatim>\<open>setTimeout\<close> wait
  in milliseconds, a \<^verbatim>\<open>console.log\<close> and a \<^verbatim>\<open>console.warn\<close> (by their message).
\<close>

datatype effect =
    Executed tx
  | ReceiptRequested string
  | is_Fetched: Fetched string
  | Waited nat
  | ConsoleLog string
  | ConsoleWarn string

text \<open>
  The network is a state \<open>'n\<close> that answers each call and moves on. \<^verbatim>\<open>execute\<close> answers
  with the transaction id of the submission or rejects; \<^verbatim>\<open>getReceipt\<close> answers with the
  receipt or rejects.
\<close>

record 'n client =
  execute :: "tx \<Rightarrow> 'n \<Rightarrow> (error + string) \<times> 'n"
  getReceipt :: "string \<Rightarrow> 'n \<Rightarrow> (error + receipt) \<times> 'n"

text \<open>\<^verbatim>\<open>Buffer.toString('hex')\<close>: two lowercase hexadecimal digits for each byte.\<close>

definition hexDigit :: "nat \<Rightarrow> char" where
  "hexDigit k = ''0123456789abcdef'' ! (k mod 16)"

definition toHex :: "byte list \<Rightarrow> string" where
  "toHex bs = concat (map (\<lambda>b. [hexDigit (unat b div 16), hexDigit (unat b mod 16)]) bs)"

section \<open>utils/error-handler.ts: executeWithRetry\<close>

text \<open>
  What a promise can reject with, and so what the \<^verbatim>\<open>catch\<close> of line 9 can bind to
  \<^verbatim>\<open>error: any\<close>: \<^verbatim>\<open>undefined\<close>, \<^verbatim>\<open>null\<close>, or any other value \<open>e\<close>. The difference
  matters in line 13, which reads \<^verbatim>\<open>error.message\<close>: reading a property of
  \<^verbatim>\<open>undefined\<close> or of \<^verbatim>\<open>null\<close> throws a \<^verbatim>\<open>TypeError\<close>, and of any other value it
  gives the message, or \<^verbatim>\<open>undefined\<close> when the value has none. (A value whose
  \<^verbatim>\<open>message\<close> is an accessor that throws, or cannot be put into a string, is not modelled.)
\<close>

datatype 'e thrown = Undefined | Null | Value 'e

text \<open>
  An operation is an asynchronous closure \<^verbatim>\<open>() => Promise<T>\<close>. Its effects on the outside
  world (network, ledger, clock) are made explicit: it maps a world \<open>'w\<close> to its outcome
  and the world it leaves behind. A rejected promise is \<open>Inl\<close>, a resolved one is \<open>Inr\<close>.
\<close>

type_synonym ('w, 'e, 'a) operation = "'w \<Rightarrow> ('e thrown + 'a) \<times> 'w"

text \<open>
  What \<^verbatim>\<open>executeWithRetry\<close> throws: the error of the operation itself (line 10,
  \<^verbatim>\<open>throw error\<close>); the \<^verbatim>\<open>TypeError\<close> of reading \<^verbatim>\<open>error.message\<close> in line 13 when
  \<^verbatim>\<open>error\<close> is \<^verbatim>\<open>undefined\<close> or \<^verbatim>\<open>null\<close>; or the error made after the loop (line 17,
  \<^verbatim>\<open>new Error('Max retries exceeded')\<close>).
\<close>

datatype 'e failure = Thrown "'e thrown" | MessageTypeError | MaxRetriesExceeded

text \<open>
  What the executor itself does besides calling the operation, in order:
  \<open>Warned attempt error delay\<close> is the \<^verbatim>\<open>console.warn\<close> of line 13, which prints the
  attempt, the message of the error and the delay; \<open>Slept delay\<close> is the \<^verbatim>\<open>setTimeout\<close>
  of line 14 by the number passed to it (how long the timer of the runtime then runs is
  not part of the code). \<open>Invoked attempt\<close> marks each call of \<^verbatim>\<open>operation()\<close> (line 8),
  so that invocations can be counted.
\<close>

datatype 'e retry_event = is_Invoked: Invoked nat | Warned nat 'e number | Slept number

text \<open>
  The expression of line 12, \<^verbatim>\<open>Math.pow(2, attempt) * 1000\<close>, as a function of the attempt.
  \<^verbatim>\<open>Math.pow(2, attempt)\<close> is the double nearest to \<open>2\<^sup>a\<^sup>t\<^sup>t\<^sup>e\<^sup>m\<^sup>p\<^sup>t\<close>, or \<^verbatim>\<open>Infinity\<close>; its
  product with 1000 is rounded again, and \<^verbatim>\<open>Infinity * 1000\<close> is \<^verbatim>\<open>Infinity\<close>.
\<close>

definition backoffDelay :: "nat \<Rightarrow> number" where
  "backoffDelay attempt =
     (case fromExact (2 ^ attempt) of
        Finite powerOfTwo \<Rightarrow> fromExact (powerOfTwo * 1000)
      | overflow \<Rightarrow> overflow)"

text \<open>
  \<^verbatim>\<open>attempt++\<close>. The counter is a number that starts at 1, so it holds a natural number;
  adding 1 is exact up to \<open>2\<^sup>5\<^sup>3\<close>, and \<open>2\<^sup>5\<^sup>3 + 1\<close>, which is not a double, rounds back to
  \<open>2\<^sup>5\<^sup>3\<close>: from there on the counter stays where it is.
\<close>

definition increment :: "nat \<Rightarrow> nat" where
  "increment attempt = (if attempt < 2 ^ 53 then attempt + 1 else attempt)"

text \<open>
  The \<^verbatim>\<open>for\<close> loop of lines 6 to 16 followed by line 17, from a given value of
  \<^verbatim>\<open>attempt\<close>. \<^verbatim>\<open>maxRetries\<close> is whatever number the caller passes: an integer, a
  fraction, zero, a negative number, an infinity or NaN. With \<^verbatim>\<open>Infinity\<close> (or any number
  above \<open>2\<^sup>5\<^sup>3\<close>) and an operation that keeps failing the loop never ends, so the function
  is partial: \<open>None\<close> stands for a call that does not return.
\<close>

partial_function (option) retryLoop ::
  "('w, 'e, 'a) operation \<Rightarrow> number \<Rightarrow> nat \<Rightarrow> 'w
     \<Rightarrow> (('e failure + 'a) \<times> 'w \<times> 'e retry_event list) option"
where
  "retryLoop operation maxRetries attempt w =
     (if lessEq (Finite (of_nat attempt)) maxRetries then
        (case operation w of
           (Inr v, w') \<Rightarrow> Some (Inr v, w', [Invoked attempt])
         | (Inl error, w') \<Rightarrow>
             if strictEquals (Finite (of_nat attempt)) maxRetries
             then Some (Inl (Thrown error), w', [Invoked attempt])
             else
               (let delay = backoffDelay attempt
                in case error of
                     Undefined \<Rightarrow> Some (Inl MessageTypeError, w', [Invoked attempt])
                   | Null \<Rightarrow> Some (Inl MessageTypeError, w', [Invoked attempt])
                   | Value e \<Rightarrow>
                       Option.bind (retryLoop operation maxRetries (increment attempt) w')
                         (\<lambda>(r, w'', evs).
                            Some (r, w'', Invoked attempt # Warned attempt e delay # Slept delay # evs))))
      else Some (Inl MaxRetriesExceeded, w, []))"

text \<open>
  \<^verbatim>\<open>executeWithRetry(operation, maxRetries)\<close>; a caller that leaves \<^verbatim>\<open>maxRetries\<close> out gets
  the default, \<open>Finite 3\<close>.
\<close>

definition executeWithRetry ::
  "('w, 'e, 'a) operation \<Rightarrow> number \<Rightarrow> 'w
     \<Rightarrow> (('e failure + 'a) \<times> 'w \<times> 'e retry_event list) option"
where
  "executeWithRetry operation maxRetries w = retryLoop operation maxRetries 1 w"

text \<open>
  Observers used to state properties of a run: the world after the first \<open>n\<close> calls of a
  stateful function, the number of invocations in a log, and the waits of a log in order.
\<close>

fun stateAfter :: "('w \<Rightarrow> 'r \<times> 'w) \<Rightarrow> nat \<Rightarrow> 'w \<Rightarrow> 'w" where
  "stateAfter f 0 w = w"
| "stateAfter f (Suc n) w = stateAfter f n (snd (f w))"

definition invocations :: "'e retry_event list \<Rightarrow> nat" where
  "invocations evs = length (filter is_Invoked evs)"

fun delays :: "'e retry_event list \<Rightarrow> number list" where
  "delays [] = []"
| "delays (Slept d # evs) = d # delays evs"
| "delays (ev # evs) = delays evs"

section \<open>Chunking of payloads (file.service.ts, smart-contract.service.ts)\<close>

text \<open>
  \<^verbatim>\<open>Buffer.slice(start, end)\<close> for \<open>0 \<le> start\<close>: the bytes from \<open>start\<close> up to, not
  including, \<open>end\<close>; \<open>end\<close> is clamped to the length, and the slice is empty when \<open>start\<close>
  is not below it.
\<close>

definition slice :: "'a list \<Rightarrow> nat \<Rightarrow> nat \<Rightarrow> 'a list" where
  "slice buf start end = take (end - start) (drop start buf)"

text \<open>
  The loop of \<^verbatim>\<open>createFile\<close> (file.service.ts, lines 379 to 381 of part_001)
  \<^verbatim>\<open>for (let i = 0; i < contents.length; i += chunkSize) chunks.push(contents.slice(i, i + chunkSize))\<close>
  from a given value of \<open>i\<close>, and the loop of \<^verbatim>\<open>deployLargeContract\<close>
  (smart-contract.service.ts, lines 89 to 97) from a given \<open>offset\<close>, which cuts the same
  slices. In the source \<open>chunkSize\<close> is the constant 6144, respectively 4096; here it
  is an argument. The test \<open>0 < chunkSize\<close> is not in the source: it stands for that
  positive constant, and every property below assumes it.
\<close>

function chunkLoop :: "nat \<Rightarrow> nat \<Rightarrow> 'a list \<Rightarrow> 'a list list" where
  "chunkLoop chunkSize i contents =
     (if i < length contents \<and> 0 < chunkSize
      then slice contents i (i + chunkSize) # chunkLoop chunkSize (i + chunkSize) contents
      else [])"
  by pat_completeness auto
termination
  by (relation "measure (\<lambda>(chunkSize, i, contents). length contents - i)") auto

declare chunkLoop.simps [simp del]

text \<open>The chunks of \<^verbatim>\<open>createFile\<close>: the array \<^verbatim>\<open>chunks\<close> after the loop, with \<open>i\<close> from 0.\<close>

definition splitChunks :: "nat \<Rightarrow> 'a list \<Rightarrow> 'a list list" where
  "splitChunks chunkSize contents = chunkLoop chunkSize 0 contents"

text \<open>
  The chunks of \<^verbatim>\<open>deployLargeContract\<close>: \<^verbatim>\<open>bytecode.slice(0, 4096)\<close> for the create
  call (line 80), then the slices of the \<^verbatim>\<open>while\<close> loop, which starts at offset 4096.
\<close>

definition deployChunks :: "nat \<Rightarrow> 'a list \<Rightarrow> 'a list list" where
  "deployChunks chunkSize bytecode =
     slice bytecode 0 chunkSize # chunkLoop chunkSize chunkSize bytecode"

section \<open>utils/transaction-monitor.ts: monitorTransaction\<close>

text \<open>The JSON values a field of the mirror node's answer can hold, and JavaScript's truthiness.\<close>

datatype jsvalue = JUndefined | JNull | JBool bool | JNumber int | JString string

fun truthy :: "jsvalue \<Rightarrow> bool" where
  "truthy JUndefined = False"
| "truthy JNull = False"
| "truthy (JBool b) = b"
| "truthy (JNumber k) = (k \<noteq> 0)"
| "truthy (JString s) = (s \<noteq> [])"

text \<open>
  An element of the \<^verbatim>\<open>transactions\<close> array: \<^verbatim>\<open>null\<close>, or an object, given by the value
  of its \<^verbatim>\<open>consensus_timestamp\<close> field (\<open>JUndefined\<close> when it has none).
\<close>

datatype tx_entry = NullEntry | Entry jsvalue

text \<open>
  One read of the mirror node, lines 7 to 10: \<^verbatim>\<open>fetch\<close> rejects; or the response is not
  \<^verbatim>\<open>ok\<close>; or reading the body with \<^verbatim>\<open>response.json()\<close> rejects; or the body is an object,
  given by its \<^verbatim>\<open>transactions\<close> field (\<open>None\<close> when it is absent or \<^verbatim>\<open>null\<close>).
\<close>

datatype fetch_result =
    FetchRejected error
  | NotOk
  | BodyRejected error
  | Body "tx_entry list option"

text \<open>
  What one iteration makes of a read (lines 6 to 18): the test of line 11 holds; or it does
  not; or something inside the \<^verbatim>\<open>try\<close> threw and the \<^verbatim>\<open>catch\<close> of line 16 took it
  (reading \<^verbatim>\<open>consensus_timestamp\<close> of a \<^verbatim>\<open>null\<close> element is a \<^verbatim>\<open>TypeError\<close>).
\<close>

datatype poll = Confirmed | NotConfirmed | PollFailed error

fun pollOutcome :: "fetch_result \<Rightarrow> poll" where
  "pollOutcome (FetchRejected e) = PollFailed e"
| "pollOutcome NotOk = NotConfirmed"
| "pollOutcome (BodyRejected e) = PollFailed e"
| "pollOutcome (Body None) = NotConfirmed"
| "pollOutcome (Body (Some [])) = NotConfirmed"
| "pollOutcome (Body (Some (NullEntry # rest))) =
     PollFailed (Error ''Cannot read properties of null'')"
| "pollOutcome (Body (Some (Entry consensus_timestamp # rest))) =
     (if truthy consensus_timestamp then Confirmed else NotConfirmed)"

definition mirrorNodeUrl :: string where
  "mirrorNodeUrl = ''https://mainnet-public.mirrornode.hedera.com''"

text \<open>The URL of line 7.\<close>

definition transactionUrl :: "string \<Rightarrow> string" where
  "transactionUrl transactionId = mirrorNodeUrl @ ''/api/v1/transactions/'' @ transactionId"

text \<open>
  The loop of lines 5 to 21 from a given \<open>i\<close>, and after it the warning of line 23. The
  function returns nothing (\<^verbatim>\<open>Promise<void>\<close>): its value is \<open>()\<close> on both ways out.
\<close>

function monitorLoop ::
  "(string \<Rightarrow> 'n \<Rightarrow> fetch_result \<times> 'n) \<Rightarrow> string \<Rightarrow> nat \<Rightarrow> 'n \<Rightarrow> unit \<times> 'n \<times> effect list"
where
  "monitorLoop fetch transactionId i n =
     (if i < 10 then
        (let url = transactionUrl transactionId
         in case fetch url n of
              (response, n') \<Rightarrow>
                (case pollOutcome response of
                   Confirmed \<Rightarrow> ((), n', [Fetched url, ConsoleLog ''Transaction confirmed:''])
                 | NotConfirmed \<Rightarrow>
                     (case monitorLoop fetch transactionId (i + 1) n' of
                        (u, n'', effects) \<Rightarrow> (u, n'', Fetched url # Waited 2000 # effects))
                 | PollFailed e \<Rightarrow>
                     (case monitorLoop fetch transactionId (i + 1) n' of
                        (u, n'', effects) \<Rightarrow>
                          (u, n'', Fetched url # ConsoleWarn ''Monitor poll failed:'' # Waited 2000 # effects))))
      else ((), n, [ConsoleWarn (''Transaction '' @ transactionId @ '' not confirmed after 10 polls'')]))"
  by pat_completeness auto
termination
  by (relation "measure (\<lambda>(fetch, transactionId, i, n). 10 - i)") auto

declare monitorLoop.simps [simp del]

definition monitorTransaction ::
  "(string \<Rightarrow> 'n \<Rightarrow> fetch_result \<times> 'n) \<Rightarrow> string \<Rightarrow> 'n \<Rightarrow> unit \<times> 'n \<times> effect list"
where
  "monitorTransaction fetch transactionId n = monitorLoop fetch transactionId 0 n"

text \<open>Observers of a list of effects: the number of reads, and the waits in order.\<close>

definition reads :: "effect list \<Rightarrow> nat" where
  "reads effects = length (filter is_Fetched effects)"

fun waits :: "effect list \<Rightarrow> nat list" where
  "waits [] = []"
| "waits (Waited d # effects) = d # waits effects"
| "waits (eff # effects) = waits effects"

section \<open>The closures of the services\<close>

text \<open>
  A step of an \<^verbatim>\<open>async\<close> closure: from the state of the network it either throws or
  returns a value, leaves a new state, and has had the listed effects. \<open>await f g\<close> is
  \<^verbatim>\<open>const x = await f; g(x)\<close>: when \<open>f\<close> throws, \<open>g\<close> is not run.
\<close>

type_synonym ('n, 'a) step = "'n \<Rightarrow> (error + 'a) \<times> 'n \<times> effect list"

definition resolve :: "'a \<Rightarrow> ('n, 'a) step" where
  "resolve v n = (Inr v, n, [])"

definition throw :: "error \<Rightarrow> ('n, 'a) step" where
  "throw e n = (Inl e, n, [])"

definition await :: "('n, 'a) step \<Rightarrow> ('a \<Rightarrow> ('n, 'b) step) \<Rightarrow> ('n, 'b) step" where
  "await f g n =
     (case f n of
        (Inl e, n', effects) \<Rightarrow> (Inl e, n', effects)
      | (Inr x, n', effects) \<Rightarrow>
          (case g x n' of (r, n'', effects') \<Rightarrow> (r, n'', effects @ effects')))"

text \<open>
  A computation without effects that may throw, and a console line. Some log lines of the
  source start with a check mark, the character U+2705, and a space; \<open>checkMark\<close> is
  the two of them in UTF-8.
\<close>

definition checkMark :: string where
  "checkMark = [CHR 0xE2, CHR 0x9C, CHR 0x85, CHR '' '']"

definition computed :: "error + 'a \<Rightarrow> ('n, 'a) step" where
  "computed r n = (r, n, [])"

definition console :: "effect \<Rightarrow> ('n, unit) step" where
  "console line n = (Inr (), n, [line])"

text \<open>\<^verbatim>\<open>await tx.execute(this.client)\<close> and \<^verbatim>\<open>await submit.getReceipt(this.client)\<close>.\<close>

definition executeTx :: "'n client \<Rightarrow> tx \<Rightarrow> ('n, string) step" where
  "executeTx cl t n = (case execute cl t n of (r, n') \<Rightarrow> (r, n', [Executed t]))"

definition receiptOf :: "'n client \<Rightarrow> string \<Rightarrow> ('n, receipt) step" where
  "receiptOf cl transactionId n =
     (case getReceipt cl transactionId n of (r, n') \<Rightarrow> (r, n', [ReceiptRequested transactionId]))"

text \<open>
  A field of a receipt used with \<^verbatim>\<open>!\<close>: nothing is checked, and calling \<^verbatim>\<open>toString()\<close>
  on a missing one throws a \<^verbatim>\<open>TypeError\<close>.
\<close>

definition nonNull :: "'a option \<Rightarrow> ('n, 'a) step" where
  "nonNull field =
     (case field of
        None \<Rightarrow> throw (Error ''Cannot read properties of null'')
      | Some v \<Rightarrow> resolve v)"

text \<open>\<^verbatim>\<open>await monitorTransaction(id)\<close>, which does not throw.\<close>

definition monitored :: "(string \<Rightarrow> 'n \<Rightarrow> fetch_result \<times> 'n) \<Rightarrow> string \<Rightarrow> ('n, unit) step" where
  "monitored fetch transactionId n =
     (case monitorTransaction fetch transactionId n of (u, n', effects) \<Rightarrow> (Inr u, n', effects))"

text \<open>
  A closure as an operation for \<open>executeWithRetry\<close>: the world is the state of the network
  together with all the effects so far. What a closure of the services rejects with is
  always an \<^verbatim>\<open>Error\<close> object (one of its own, of the SDK or of the runtime), so a value
  that is neither \<^verbatim>\<open>undefined\<close> nor \<^verbatim>\<open>null\<close>.
\<close>

definition traced :: "('n, 'a) step \<Rightarrow> ('n \<times> effect list, error, 'a) operation" where
  "traced f w =
     (case f (fst w) of
        (Inl e, n', effects) \<Rightarrow> (Inl (Value e), (n', snd w @ effects))
      | (Inr v, n', effects) \<Rightarrow> (Inr v, (n', snd w @ effects)))"

text \<open>
  Observers used to state properties of a closure: the effects of one run from a state of
  the network, and the state the run leaves behind.
\<close>

definition effectsOf :: "('n, 'a) step \<Rightarrow> 'n \<Rightarrow> effect list" where
  "effectsOf f n = snd (snd (f n))"

definition networkAfter :: "('n, 'a) step \<Rightarrow> 'n \<Rightarrow> 'n" where
  "networkAfter f n = fst (snd (f n))"

subsection \<open>file.service.ts: createFile\<close>

text \<open>The fields of \<^verbatim>\<open>FileOperationResult\<close>: success, fileId, transactionId, explorerUrl.\<close>

datatype FileOperationResult = FileOperationResult bool string string string

text \<open>
  The loop of lines 403 to 409: one append transaction for each remaining chunk, in order;
  the first \<^verbatim>\<open>execute\<close> that rejects ends the loop and the closure.
\<close>

fun appendChunks :: "'n client \<Rightarrow> string \<Rightarrow> byte list list \<Rightarrow> ('n, unit) step" where
  "appendChunks cl fid [] = resolve ()"
| "appendChunks cl fid (chunk # rest) =
     await (executeTx cl (FileAppendTransaction fid chunk)) (\<lambda>appended. appendChunks cl fid rest)"

text \<open>
  \<^verbatim>\<open>setContents\<close> of the SDK's \<^verbatim>\<open>FileCreateTransaction\<close>: bytes are kept as they are;
  anything else is encoded as a string with \<^verbatim>\<open>Buffer.from\<close>, which throws a \<^verbatim>\<open>TypeError\<close>
  when it is given \<^verbatim>\<open>undefined\<close>. Nothing has been sent to the network at that point.
\<close>

definition setContents :: "byte list option \<Rightarrow> ('n, byte list) step" where
  "setContents contents =
     (case contents of
        None \<Rightarrow> throw bufferFromUndefined
      | Some bytes \<Rightarrow> resolve bytes)"

text \<open>
  The closure of \<^verbatim>\<open>createFile\<close>, lines 371 to 428, for contents given as bytes (a string
  is first encoded as UTF-8). \<^verbatim>\<open>chunks[0]\<close> is \<^verbatim>\<open>undefined\<close> when the contents are empty,
  and line 385 then throws.
\<close>

definition createFile_closure ::
  "'n client \<Rightarrow> (string \<Rightarrow> 'n \<Rightarrow> fetch_result \<times> 'n) \<Rightarrow> byte list \<Rightarrow> ('n, FileOperationResult) step"
where
  "createFile_closure cl fetch contents =
     (let chunks = chunkLoop 6144 0 contents
      in await (setContents (if chunks = [] then None else Some (hd chunks))) (\<lambda>firstChunk.
         await (executeTx cl (FileCreateTransaction (Some firstChunk))) (\<lambda>fileCreateSubmit.
         await (receiptOf cl fileCreateSubmit) (\<lambda>fileCreateReceipt.
         await (nonNull (fileId fileCreateReceipt)) (\<lambda>fid.
         await (console (ConsoleLog (checkMark @ ''File created: '' @ fid))) (\<lambda>logged.
         await (appendChunks cl fid (tl chunks)) (\<lambda>appended.
         await (console (ConsoleLog ''Stored file metadata:'')) (\<lambda>stored.
         await (monitored fetch fileCreateSubmit) (\<lambda>confirmed.
         resolve (FileOperationResult True fid fileCreateSubmit
                    (''https://hashscan.io/mainnet/file/'' @ fid)))))))))))"

text \<open>
  \<^verbatim>\<open>createFile\<close>: the closure given to \<^verbatim>\<open>executeWithRetry\<close> with no second argument,
  so with three attempts, on a network in state \<open>n\<close> and with no effects yet.
\<close>

definition createFile ::
  "'n client \<Rightarrow> (string \<Rightarrow> 'n \<Rightarrow> fetch_result \<times> 'n) \<Rightarrow> byte list \<Rightarrow> 'n
     \<Rightarrow> ((error failure + FileOperationResult) \<times> ('n \<times> effect list) \<times> error retry_event list) option"
where
  "createFile cl fetch contents n =
     executeWithRetry (traced (createFile_closure cl fetch contents)) (Finite 3) (n, [])"

subsection \<open>smart-contract.service.ts: deployLargeContract\<close>

text \<open>The fields of \<^verbatim>\<open>ContractDeploymentResult\<close>: success, contractId, transactionId, explorerUrl.\<close>

datatype ContractDeploymentResult = ContractDeploymentResult bool string string string

text \<open>
  The closure of \<^verbatim>\<open>deployLargeContract\<close>, lines 74 to 123, for bytecode given as bytes
  (the source decodes them from a hex string). The \<^verbatim>\<open>while\<close> loop of lines 89 to 97 cuts
  a chunk and submits it in one iteration; here the chunks from offset 4096 are cut first and
  then submitted in order, which is the same sequence of calls. \<^verbatim>\<open>setContents\<close> is given
  the bytes \<^verbatim>\<open>bytecode.slice(0, 4096)\<close>, also when there are none, and keeps them.
\<close>

definition deployLargeContract_closure ::
  "'n client \<Rightarrow> (string \<Rightarrow> 'n \<Rightarrow> fetch_result \<times> 'n) \<Rightarrow> byte list \<Rightarrow> nat
     \<Rightarrow> ('n, ContractDeploymentResult) step"
where
  "deployLargeContract_closure cl fetch bytecode gas =
     (let fileCreateTx = FileCreateTransaction (Some (slice bytecode 0 4096))
      in await (executeTx cl fileCreateTx) (\<lambda>fileCreateSubmit.
         await (receiptOf cl fileCreateSubmit) (\<lambda>fileCreateReceipt.
         await (nonNull (fileId fileCreateReceipt)) (\<lambda>fid.
         await (console (ConsoleLog (''File created for large contract: '' @ fid))) (\<lambda>logged.
         await (appendChunks cl fid (chunkLoop 4096 4096 bytecode)) (\<lambda>appended.
         await (executeTx cl (ContractCreateTransaction fid gas)) (\<lambda>contractCreateSubmit.
         await (receiptOf cl contractCreateSubmit) (\<lambda>contractCreateReceipt.
         await (nonNull (contractId contractCreateReceipt)) (\<lambda>cid.
         await (console (ConsoleLog (checkMark @ ''Large contract deployed: '' @ cid))) (\<lambda>logged'.
         await (monitored fetch contractCreateSubmit) (\<lambda>confirmed.
         resolve (ContractDeploymentResult True cid contractCreateSubmit
                    (''https://hashscan.io/mainnet/contract/'' @ cid)))))))))))))"

definition deployLargeContract ::
  "'n client \<Rightarrow> (string \<Rightarrow> 'n \<Rightarrow> fetch_result \<times> 'n) \<Rightarrow> byte list \<Rightarrow> nat \<Rightarrow> 'n
     \<Rightarrow> ((error failure + ContractDeploymentResult) \<times> ('n \<times> effect list)
          \<times> error retry_event list) option"
where
  "deployLargeContract cl fetch bytecode gas n =
     executeWithRetry (traced (deployLargeContract_closure cl fetch bytecode gas)) (Finite 3) (n, [])"

subsection \<open>A network for examples\<close>

text \<open>
  A network whose state is the number of transactions submitted so far. It rejects the second
  submission with \<^verbatim>\<open>BUSY\<close> and accepts every other one; each accepted submission gets its
  own transaction id, and its receipt names a new file and a new contract. Its mirror node
  shows every transaction as confirmed.
\<close>

definition flakyClient :: "nat client" where
  "flakyClient =
     \<lparr>execute = (\<lambda>t k. (if k = 1 then Inl (Error ''BUSY'') else Inr (''0.0.2@'' @ [hexDigit k]), Suc k)),
      getReceipt = (\<lambda>transactionId k.
        (Inr \<lparr>fileId = Some (''0.0.10'' @ drop 6 transactionId),
              contractId = Some (''0.0.20'' @ drop 6 transactionId),
              topicSequenceNumber = Some 1\<rparr>, k))\<rparr>"

definition confirmingMirror :: "string \<Rightarrow> nat \<Rightarrow> fetch_result \<times> nat" where
  "confirmingMirror url k = (Body (Some [Entry (JString ''1700000000.000000001'')]), k)"


text \<open>The same network when it rejects the second and the fourth submission.\<close>

definition busyClient :: "nat client" where
  "busyClient =
     \<lparr>execute = (\<lambda>t k. (if k = 1 \<or> k = 3 then Inl (Error ''BUSY'')
                           else Inr (''0.0.2@'' @ [hexDigit k]), Suc k)),
      getReceipt = getReceipt flakyClient\<rparr>"

subsection \<open>consensus.service.ts: submitMessage\<close>

text \<open>The part of \<^verbatim>\<open>process.env\<close> that \<^verbatim>\<open>submitMessage\<close> reads.\<close>

record env =
  HCS_ENCRYPTION_KEY :: "string option"

text \<open>\<^verbatim>\<open>!value\<close> for an environment variable: it is not set, or set to the empty string.\<close>

definition missing :: "string option \<Rightarrow> bool" where
  "missing v = (case v of None \<Rightarrow> True | Some s \<Rightarrow> s = [])"

text \<open>
  The argument \<^verbatim>\<open>message: any\<close>, by what \<^verbatim>\<open>JSON.stringify\<close> makes of it: a JSON text;
  \<^verbatim>\<open>undefined\<close> (for \<^verbatim>\<open>undefined\<close>, a function or a symbol); or a thrown
  \<^verbatim>\<open>TypeError\<close> (for a \<^verbatim>\<open>BigInt\<close> or an object with a cycle). A \<^verbatim>\<open>toJSON\<close> method
  that throws a value of its own making is not modelled.
\<close>

datatype message = Json string | NoJson | NotSerializable error

fun stringify :: "message \<Rightarrow> error + string option" where
  "stringify (Json text) = Inr (Some text)"
| "stringify NoJson = Inr None"
| "stringify (NotSerializable e) = Inl e"

text \<open>
  The library functions the method calls: \<^verbatim>\<open>TopicId.fromString\<close>, which throws on a
  malformed id; \<^verbatim>\<open>crypto.randomBytes\<close>; the cipher calls of lines 296 to 300 on a key
  (in hex), an IV and the message (\<open>None\<close> for \<^verbatim>\<open>undefined\<close>), which give the ciphertext in
  hex and the authentication tag, or throw; and \<^verbatim>\<open>new Date().toISOString()\<close>.
\<close>

record 'n node =
  topicFromString :: "string \<Rightarrow> error + string"
  randomBytes :: "nat \<Rightarrow> 'n \<Rightarrow> byte list \<times> 'n"
  aes256gcm :: "string \<Rightarrow> byte list \<Rightarrow> string option \<Rightarrow> error + string \<times> byte list"
  isoNow :: "'n \<Rightarrow> string"

text \<open>\<^verbatim>\<open>encryptMessage\<close>, lines 291 to 303.\<close>

definition encryptMessage :: "'n node \<Rightarrow> string \<Rightarrow> string option \<Rightarrow> ('n, string option) step" where
  "encryptMessage lib key message n =
     (case randomBytes lib 16 n of
        (iv, n') \<Rightarrow>
          (case aes256gcm lib key iv message of
             Inl e \<Rightarrow> (Inl e, n', [])
           | Inr (encrypted, authTag) \<Rightarrow>
               (Inr (Some (toHex iv @ '':'' @ toHex authTag @ '':'' @ encrypted)), n', [])))"

definition clock :: "'n node \<Rightarrow> ('n, string) step" where
  "clock lib n = (Inr (isoNow lib n), n, [])"

text \<open>
  The fields of \<^verbatim>\<open>MessageSubmitResult\<close>: success, topicId, transactionId,
  consensusTimestamp, sequenceNumber.
\<close>

datatype MessageSubmitResult = MessageSubmitResult bool string string string nat

text \<open>
  The closure of \<^verbatim>\<open>submitMessage\<close>, lines 87 to 121. \<^verbatim>\<open>Buffer.from\<close> throws when the
  message string is \<^verbatim>\<open>undefined\<close>; a string is taken by its bytes.
\<close>

definition submitMessage_closure ::
  "'n client \<Rightarrow> (string \<Rightarrow> 'n \<Rightarrow> fetch_result \<times> 'n) \<Rightarrow> 'n node \<Rightarrow> env
     \<Rightarrow> string \<Rightarrow> message \<Rightarrow> bool \<Rightarrow> ('n, MessageSubmitResult) step"
where
  "submitMessage_closure cl fetch lib environment topicId message encrypt =
     await (computed (topicFromString lib topicId)) (\<lambda>topic.
     await (computed (stringify message)) (\<lambda>messageString.
     await (if encrypt
            then (if missing (HCS_ENCRYPTION_KEY environment)
                  then throw (Error ''Missing HCS_ENCRYPTION_KEY in environment'')
                  else (case HCS_ENCRYPTION_KEY environment of
                          None \<Rightarrow> throw (Error ''Missing HCS_ENCRYPTION_KEY in environment'')
                        | Some key \<Rightarrow> encryptMessage lib key messageString))
            else resolve messageString) (\<lambda>messageString.
     await (computed (case messageString of
                        None \<Rightarrow> Inl bufferFromUndefined
                      | Some text \<Rightarrow> Inr (map of_char text))) (\<lambda>messageBuffer.
     await (executeTx cl (TopicMessageSubmitTransaction topic messageBuffer)) (\<lambda>submitResponse.
     await (receiptOf cl submitResponse) (\<lambda>submitReceipt.
     await (clock lib) (\<lambda>consensusTimestamp.
     await (console (ConsoleLog (checkMark @ ''Message submitted to topic '' @ topicId))) (\<lambda>logged.
     await (monitored fetch submitResponse) (\<lambda>confirmed.
     resolve (MessageSubmitResult True topicId submitResponse consensusTimestamp
                (case topicSequenceNumber submitReceipt of None \<Rightarrow> 0 | Some k \<Rightarrow> k)))))))))))"

definition submitMessage ::
  "'n client \<Rightarrow> (string \<Rightarrow> 'n \<Rightarrow> fetch_result \<times> 'n) \<Rightarrow> 'n node \<Rightarrow> env
     \<Rightarrow> string \<Rightarrow> message \<Rightarrow> bool \<Rightarrow> 'n
     \<Rightarrow> ((error failure + MessageSubmitResult) \<times> ('n \<times> effect list)
          \<times> error retry_event list) option"
where
  "submitMessage cl fetch lib environment topicId message encrypt n =
     executeWithRetry
       (traced (submitMessage_closure cl fetch lib environment topicId message encrypt))
       (Finite 3) (n, [])"

text \<open>
  Library functions for examples: every topic id is well formed, the random bytes are
  zero, the cipher is the identity with an all-zero tag, and the clock stands still.
\<close>

definition exampleNode :: "nat node" where
  "exampleNode =
     \<lparr>topicFromString = (\<lambda>s. Inr s),
      randomBytes = (\<lambda>k n. (replicate k 0, n)),
      aes256gcm = (\<lambda>key iv m. case m of
                     None \<Rightarrow> Inl (Error ''The data argument must be of type string'')
                   | Some text \<Rightarrow> Inr (text, replicate 16 0)),
      isoNow = (\<lambda>n. ''2025-01-01T00:00:00.000Z'')\<rparr>"

section \<open>consensus.service.ts: hashUserId\<close>

subsection \<open>SHA-256\<close>

text \<open>
  \<^verbatim>\<open>crypto.createHash('sha256')\<close> computes the SHA-256 digest of FIPS 180-4. The message
  is padded with the byte \<^verbatim>\<open>0x80\<close>, zeros, and its length in bits as a 64-bit big-endian
  number, to a multiple of 64 bytes; each block of 16 big-endian 32-bit words goes through 64
  rounds of the compression function. All arithmetic is on 32-bit words and wraps around.
\<close>

type_synonym u32 = "32 word"

definition rotr :: "nat \<Rightarrow> u32 \<Rightarrow> u32" where
  "rotr k x = drop_bit k x OR push_bit (32 - k) x"

definition Ch :: "u32 \<Rightarrow> u32 \<Rightarrow> u32 \<Rightarrow> u32" where
  "Ch x y z = (x AND y) XOR (NOT x AND z)"

definition Maj :: "u32 \<Rightarrow> u32 \<Rightarrow> u32 \<Rightarrow> u32" where
  "Maj x y z = (x AND y) XOR (x AND z) XOR (y AND z)"

definition bsig0 :: "u32 \<Rightarrow> u32" where
  "bsig0 x = rotr 2 x XOR rotr 13 x XOR rotr 22 x"

definition bsig1 :: "u32 \<Rightarrow> u32" where
  "bsig1 x = rotr 6 x XOR rotr 11 x XOR rotr 25 x"

definition ssig0 :: "u32 \<Rightarrow> u32" where
  "ssig0 x = rotr 7 x XOR rotr 18 x XOR drop_bit 3 x"

definition ssig1 :: "u32 \<Rightarrow> u32" where
  "ssig1 x = rotr 17 x XOR rotr 19 x XOR drop_bit 10 x"

text \<open>
  The round constants: the first 32 bits of the fractional parts of the cube roots of the
  first 64 primes, here in decimal (\<open>1116352408\<close> is \<^verbatim>\<open>428a2f98\<close> in hexadecimal).
\<close>

definition K256 :: "u32 list" where
  "K256 =
    [1116352408, 1899447441, 3049323471, 3921009573, 961987163, 1508970993,
     2453635748, 2870763221, 3624381080, 310598401, 607225278, 1426881987,
     1925078388, 2162078206, 2614888103, 3248222580, 3835390401, 4022224774,
     264347078, 604807628, 770255983, 1249150122, 1555081692, 1996064986,
     2554220882, 2821834349, 2952996808, 3210313671, 3336571891, 3584528711,
     113926993, 338241895, 666307205, 773529912, 1294757372, 1396182291,
     1695183700, 1986661051, 2177026350, 2456956037, 2730485921, 2820302411,
     3259730800, 3345764771, 3516065817, 3600352804, 4094571909, 275423344,
     430227734, 506948616, 659060556, 883997877, 958139571, 1322822218,
     1537002063, 1747873779, 1955562222, 2024104815, 2227730452, 2361852424,
     2428436474, 2756734187, 3204031479, 3329325298]"

text \<open>
  The eight working variables, and their initial values: the first 32 bits of the fractional
  parts of the square roots of the first 8 primes.
\<close>

type_synonym hstate = "u32 \<times> u32 \<times> u32 \<times> u32 \<times> u32 \<times> u32 \<times> u32 \<times> u32"

definition H256 :: hstate where
  "H256 =
    (1779033703, 3144134277, 1013904242, 2773480762, 1359893119, 2600822924, 528734635, 1541459225)"

text \<open>One round, with round constant \<open>k\<close> and schedule word \<open>w\<close>.\<close>

fun round256 :: "hstate \<Rightarrow> u32 \<Rightarrow> u32 \<Rightarrow> hstate" where
  "round256 (a, b, c, d, e, f, g, h) k w =
     (let t1 = h + bsig1 e + Ch e f g + k + w;
          t2 = bsig0 a + Maj a b c
      in (t1 + t2, a, b, c, d + t1, e, f, g))"

text \<open>
  The message schedule as a window of 16 words: the head is the word of the current round,
  and sliding the window appends the next word of the schedule.
\<close>

fun slide :: "u32 list \<Rightarrow> u32 list" where
  "slide [w0, w1, w2, w3, w4, w5, w6, w7, w8, w9, w10, w11, w12, w13, w14, w15] =
     [w1, w2, w3, w4, w5, w6, w7, w8, w9, w10, w11, w12, w13, w14, w15,
      ssig1 w14 + w9 + ssig0 w1 + w0]"
| "slide ws = ws"

fun rounds :: "u32 list \<Rightarrow> u32 list \<Rightarrow> hstate \<Rightarrow> hstate" where
  "rounds [] ws s = s"
| "rounds (k # ks) ws s = rounds ks (slide ws) (round256 s k (hd ws))"

fun addState :: "hstate \<Rightarrow> hstate \<Rightarrow> hstate" where
  "addState (a, b, c, d, e, f, g, h) (a', b', c', d', e', f', g', h') =
     (a + a', b + b', c + c', d + d', e + e', f + f', g + g', h + h')"

definition compress :: "hstate \<Rightarrow> u32 list \<Rightarrow> hstate" where
  "compress s block = addState s (rounds K256 block s)"

text \<open>Padding, big-endian words, and blocks of 16 words.\<close>

definition lengthBytes :: "nat \<Rightarrow> byte list" where
  "lengthBytes bits =
     map (\<lambda>k. ucast (drop_bit (8 * k) (of_nat bits :: 64 word))) [7, 6, 5, 4, 3, 2, 1, 0]"

definition pad :: "byte list \<Rightarrow> byte list" where
  "pad msg =
     msg @ [0x80] @ replicate ((64 - (length msg + 9) mod 64) mod 64) 0
       @ lengthBytes (8 * length msg)"

fun wordsOf :: "byte list \<Rightarrow> u32 list" where
  "wordsOf (b0 # b1 # b2 # b3 # bs) =
     (push_bit 24 (ucast b0) OR push_bit 16 (ucast b1) OR push_bit 8 (ucast b2) OR ucast b3)
       # wordsOf bs"
| "wordsOf bs = []"

function blocks :: "u32 list \<Rightarrow> u32 list list" where
  "blocks ws = (if length ws < 16 then [] else take 16 ws # blocks (drop 16 ws))"
  by pat_completeness auto
termination
  by (relation "measure length") auto

declare blocks.simps [simp del]

definition sha256 :: "byte list \<Rightarrow> hstate" where
  "sha256 msg = foldl compress H256 (blocks (wordsOf (pad msg)))"

definition bytesOf :: "u32 \<Rightarrow> byte list" where
  "bytesOf w = [ucast (drop_bit 24 w), ucast (drop_bit 16 w), ucast (drop_bit 8 w), ucast w]"

fun digest :: "hstate \<Rightarrow> byte list" where
  "digest (a, b, c, d, e, f, g, h) =
     bytesOf a @ bytesOf b @ bytesOf c @ bytesOf d @ bytesOf e @ bytesOf f @ bytesOf g @ bytesOf h"

subsection \<open>hashUserId\<close>

text \<open>
  Line 306: \<^verbatim>\<open>crypto.createHash('sha256').update(userId).digest('hex').substring(0, 16)\<close>.
  The identifier is given by the bytes of its UTF-8 encoding.
\<close>

definition hashUserId :: "string \<Rightarrow> string" where
  "hashUserId userId = take 16 (toHex (digest (sha256 (map of_char userId))))"

section \<open>utils/cost-tracker.ts: calculateDailyCosts\<close>

record CostTracker =
  htsTransfers :: rat
  hcsMessages :: rat
  contractExecutions :: rat
  totalCost :: rat

text \<open>
  Lines 9 to 20. An argument left out (\<open>None\<close>) takes its default; a count is an integer
  held in a number; the literals \<^verbatim>\<open>0.001\<close>, \<^verbatim>\<open>0.0001\<close> and \<^verbatim>\<open>0.05\<close> are the doubles
  nearest to these decimals. Infinities and NaN are left out here: a count is a finite
  number, and the costs, which are smaller than the counts, stay finite.
\<close>

definition calculateDailyCosts :: "int option \<Rightarrow> int option \<Rightarrow> int option \<Rightarrow> CostTracker" where
  "calculateDailyCosts htsCount hcsCount hscsCount =
     (let htsCount = toDouble (of_int (case htsCount of None \<Rightarrow> 10000 | Some c \<Rightarrow> c));
          hcsCount = toDouble (of_int (case hcsCount of None \<Rightarrow> 5000 | Some c \<Rightarrow> c));
          hscsCount = toDouble (of_int (case hscsCount of None \<Rightarrow> 500 | Some c \<Rightarrow> c));
          htsCost = mulDouble htsCount (toDouble (1 / 1000));
          hcsCost = mulDouble hcsCount (toDouble (1 / 10000));
          hscsCost = mulDouble hscsCount (toDouble (5 / 100))
      in \<lparr>htsTransfers = htsCost,
          hcsMessages = hcsCost,
          contractExecutions = hscsCost,
          totalCost = addDouble (addDouble htsCost hcsCost) hscsCost\<rparr>)"

section \<open>Properties of the JavaScript numbers\<close>

subsection \<open>Evaluating the rounding\<close>

lemma floor_quotient: "\<lfloor>(numeral a :: rat) / numeral b\<rfloor> = numeral a div numeral b"
  by (metis floor_divide_of_int_eq of_int_numeral)

lemma ceiling_quotient: "\<lceil>(numeral a :: rat) / numeral b\<rceil> = - ((- numeral a) div numeral b)"
proof -
  have "\<lceil>(numeral a :: rat) / numeral b\<rceil> = - \<lfloor>- ((numeral a :: rat) / numeral b)\<rfloor>"
    by (simp add: ceiling_def)
  also have "- ((numeral a :: rat) / numeral b) = of_int (- numeral a) / of_int (numeral b)"
    by simp
  also have "\<lfloor>(of_int (- numeral a) :: rat) / of_int (numeral b)\<rfloor> = (- numeral a) div numeral b"
    by (rule floor_divide_of_int_eq)
  finally show ?thesis .
qed

lemma roundHalfEven_of_int: "roundHalfEven (of_int k) = k"
  by (simp add: roundHalfEven_def)

lemma roundHalfEven_quotient:
  assumes "0 < b"
  shows "roundHalfEven (of_int a / of_int b) =
     (if 2 * (a mod b) < b then a div b
      else if b < 2 * (a mod b) then a div b + 1
      else if even (a div b) then a div b else a div b + 1)"
proof -
  have q: "\<lfloor>(of_int a :: rat) / of_int b\<rfloor> = a div b"
    by (rule floor_divide_of_int_eq)
  have "(of_int a :: rat) = of_int (a div b) * of_int b + of_int (a mod b)"
    by (metis of_int_add of_int_mult div_mult_mod_eq)
  then have r: "(of_int a :: rat) / of_int b - of_int (a div b) = of_int (a mod b) / of_int b"
    using assms by (simp add: field_simps)
  have lt: "(of_int (a mod b) :: rat) / of_int b < 1 / 2 \<longleftrightarrow> 2 * (a mod b) < b"
  proof -
    have "(of_int (a mod b) :: rat) / of_int b < 1 / 2 \<longleftrightarrow>
        (of_int (2 * (a mod b)) :: rat) < of_int b"
      using assms by (simp add: field_simps)
    then show ?thesis by (simp only: of_int_less_iff)
  qed
  have gt: "1 / 2 < (of_int (a mod b) :: rat) / of_int b \<longleftrightarrow> b < 2 * (a mod b)"
  proof -
    have "1 / 2 < (of_int (a mod b) :: rat) / of_int b \<longleftrightarrow>
        (of_int b :: rat) < of_int (2 * (a mod b))"
      using assms by (simp add: field_simps)
    then show ?thesis by (simp only: of_int_less_iff)
  qed
  show ?thesis
    unfolding roundHalfEven_def Let_def q r lt gt by simp
qed

lemma roundHalfEven_numerals:
  "roundHalfEven (numeral a / numeral b) =
     (if 2 * (numeral a mod numeral b) < (numeral b :: int) then numeral a div numeral b
      else if (numeral b :: int) < 2 * (numeral a mod numeral b) then numeral a div numeral b + 1
      else if even (numeral a div numeral b :: int) then numeral a div numeral b
      else numeral a div numeral b + 1)"
  using roundHalfEven_quotient [of "numeral b" "numeral a"] by simp

lemma roundHalfEven_numeral: "roundHalfEven (numeral a) = numeral a"
  using roundHalfEven_of_int [of "numeral a"] by simp

lemmas double_eval = toDouble_def ilog2_def pow2_def Let_def bitLength.simps
  floor_quotient ceiling_quotient roundHalfEven_numerals roundHalfEven_numeral

subsection \<open>The accuracy of the rounding\<close>

lemma bitLength_bounds:
  "0 < n \<Longrightarrow> 2 ^ (bitLength n - 1) \<le> n \<and> n < 2 ^ bitLength n"
proof (induction n rule: bitLength.induct)
  case (1 n)
  show ?case
  proof (cases "n div 2 = 0")
    case True
    with 1(2) have "n = 1" by (simp add: div_eq_0_iff)
    then show ?thesis by (simp add: bitLength.simps)
  next
    case False
    then have pos: "0 < n div 2" by simp
    with 1 have IH: "2 ^ (bitLength (n div 2) - 1) \<le> n div 2" "n div 2 < 2 ^ bitLength (n div 2)"
      by simp_all
    have B: "0 < bitLength (n div 2)" using pos by (simp add: bitLength.simps [of "n div 2"])
    have b: "bitLength n = Suc (bitLength (n div 2))"
      using 1(2) by (simp add: bitLength.simps [of n])
    have "(2::nat) ^ bitLength (n div 2) = 2 * 2 ^ (bitLength (n div 2) - 1)"
      using B by (cases "bitLength (n div 2)") simp_all
    with IH(1) have lo: "2 ^ bitLength (n div 2) \<le> n" by simp
    from IH(2) have hi: "n < 2 * 2 ^ bitLength (n div 2)" by simp
    from lo hi b show ?thesis by simp
  qed
qed

lemma pow2_power_int: "pow2 k = 2 powi k"
  by (simp add: pow2_def power_int_def inverse_eq_divide power_one_over)

lemma pow2_pos: "0 < pow2 k"
  by (simp add: pow2_power_int)

lemma pow2_of_nat: "pow2 (int n) = 2 ^ n"
  by (simp add: pow2_def)

lemma pow2_minus_nat: "pow2 (- int n) = 1 / 2 ^ n"
  by (simp add: pow2_power_int power_int_minus inverse_eq_divide)

lemma pow2_diff: "pow2 (k - int n) = pow2 k / 2 ^ n"
  by (simp add: pow2_power_int power_int_diff)

text \<open>\<open>ilog2\<close> is the binary exponent it is meant to be.\<close>

lemma ilog2_bounds:
  assumes "0 < x"
  shows "pow2 (ilog2 x) \<le> x \<and> x < pow2 (ilog2 x + 1)"
proof (cases "1 \<le> x")
  case True
  define n where "n = nat \<lfloor>x\<rfloor>"
  have n: "0 < n" using True by (simp add: n_def)
  have fl: "of_nat n \<le> x" "x < of_nat n + 1"
    using True by (simp_all add: n_def) linarith+
  from bitLength_bounds [OF n] have b: "2 ^ (bitLength n - 1) \<le> n" "n < 2 ^ bitLength n"
    by simp_all
  have B: "0 < bitLength n" using n by (simp add: bitLength.simps [of n])
  have k: "ilog2 x = int (bitLength n - 1)"
    using True B by (simp add: ilog2_def n_def)
  have "(2::rat) ^ (bitLength n - 1) \<le> of_nat n"
    using b(1) by (metis of_nat_le_iff of_nat_numeral of_nat_power)
  then have "(2::rat) ^ (bitLength n - 1) \<le> x" using fl(1) by (rule order_trans)
  then have lo: "pow2 (ilog2 x) \<le> x" by (simp only: k pow2_of_nat)
  have "Suc n \<le> 2 ^ bitLength n" using b(2) by simp
  then have "(of_nat (Suc n) :: rat) \<le> 2 ^ bitLength n"
    by (metis of_nat_le_iff of_nat_numeral of_nat_power)
  with fl(2) have "x < 2 ^ bitLength n" by (simp only: of_nat_Suc order_less_le_trans)
  moreover have "ilog2 x + 1 = int (bitLength n)" using k B by simp
  ultimately have "x < pow2 (ilog2 x + 1)" by (simp add: pow2_of_nat)
  with lo show ?thesis by simp
next
  case False
  define y where "y = 1 / x"
  have y: "1 < y" using False assms by (simp add: y_def)
  define c where "c = nat (\<lceil>y\<rceil> - 1)"
  have cy: "of_nat c < y" "y \<le> of_nat c + 1"
  proof -
    have "1 < \<lceil>y\<rceil>" using y by simp
    then have "of_nat c = (of_int \<lceil>y\<rceil> :: rat) - 1" by (simp add: c_def)
    then show "of_nat c < y" "y \<le> of_nat c + 1" by (simp_all) linarith+
  qed
  have c: "0 < c" using y by (simp add: c_def)
  from bitLength_bounds [OF c] have b: "2 ^ (bitLength c - 1) \<le> c" "c < 2 ^ bitLength c"
    by simp_all
  have B: "0 < bitLength c" using c by (simp add: bitLength.simps [of c])
  have k: "ilog2 x = - int (bitLength c)"
    using False by (simp add: ilog2_def c_def y_def)
  have "Suc c \<le> 2 ^ bitLength c" using b(2) by simp
  then have "(of_nat (Suc c) :: rat) \<le> 2 ^ bitLength c"
    by (metis of_nat_le_iff of_nat_numeral of_nat_power)
  with cy(2) have "y \<le> 2 ^ bitLength c" by (simp only: of_nat_Suc order_trans)
  then have lo: "pow2 (ilog2 x) \<le> x"
    using assms by (simp add: k pow2_minus_nat y_def field_simps)
  have "(2::rat) ^ (bitLength c - 1) \<le> of_nat c"
    using b(1) by (metis of_nat_le_iff of_nat_numeral of_nat_power)
  then have "2 ^ (bitLength c - 1) < y" using cy(1) by (rule order_le_less_trans)
  moreover have "ilog2 x + 1 = - int (bitLength c - 1)" using k B by simp
  ultimately have "x < pow2 (ilog2 x + 1)"
    using assms by (simp add: pow2_minus_nat y_def field_simps)
  with lo show ?thesis by simp
qed

lemma roundHalfEven_error: "\<bar>of_int (roundHalfEven m) - m\<bar> \<le> 1 / 2"
proof -
  have "of_int \<lfloor>m\<rfloor> \<le> m" "m < of_int \<lfloor>m\<rfloor> + 1" by linarith+
  then show ?thesis by (auto simp: roundHalfEven_def Let_def)
qed

text \<open>Rounding to a double moves a number by at most one part in \<open>2\<^sup>5\<^sup>3\<close>.\<close>

lemma toDouble_error: "\<bar>toDouble x - x\<bar> \<le> \<bar>x\<bar> / 2 ^ 53"
proof (cases "x = 0")
  case True
  then show ?thesis by (simp add: toDouble_def)
next
  case False
  define e where "e = ilog2 \<bar>x\<bar> - 52"
  define m where "m = \<bar>x\<bar> / pow2 e"
  have p: "0 < pow2 e" by (rule pow2_pos)
  have x: "x = sgn x * m * pow2 e"
    using p by (simp add: m_def sgn_mult_abs)
  have t: "toDouble x = sgn x * of_int (roundHalfEven m) * pow2 e"
    using False by (simp add: toDouble_def m_def e_def Let_def)
  have "toDouble x - x = sgn x * (of_int (roundHalfEven m) - m) * pow2 e"
    by (subst t, subst (2) x) (simp add: algebra_simps)
  then have "\<bar>toDouble x - x\<bar> = \<bar>of_int (roundHalfEven m) - m\<bar> * pow2 e"
    using False p by (simp add: abs_mult abs_sgn_eq)
  also have "\<dots> \<le> 1 / 2 * pow2 e"
    using roundHalfEven_error [of m] p by (intro mult_right_mono) simp_all
  also have "pow2 e = pow2 (ilog2 \<bar>x\<bar>) / 2 ^ 52"
    unfolding e_def using pow2_diff [of "ilog2 \<bar>x\<bar>" 52] by simp
  also have "1 / 2 * (pow2 (ilog2 \<bar>x\<bar>) / 2 ^ 52) \<le> 1 / 2 * (\<bar>x\<bar> / 2 ^ 52)"
    using ilog2_bounds [of "\<bar>x\<bar>"] False by (intro mult_left_mono divide_right_mono) simp_all
  finally show ?thesis by simp
qed

lemma toDouble_between:
  assumes "0 \<le> x"
  shows "x * (1 - 1 / 2 ^ 53) \<le> toDouble x \<and> toDouble x \<le> x * (1 + 1 / 2 ^ 53)"
proof -
  from toDouble_error [of x] assms have "\<bar>toDouble x - x\<bar> \<le> x / 2 ^ 53" by simp
  then have "x - x / 2 ^ 53 \<le> toDouble x" "toDouble x \<le> x + x / 2 ^ 53" by linarith+
  then show ?thesis by (simp add: algebra_simps)
qed


subsection \<open>Numbers that are doubles\<close>

lemma pow2_less_iff: "pow2 a < pow2 b \<longleftrightarrow> a < b"
proof
  assume "pow2 a < pow2 b"
  show "a < b"
  proof (rule ccontr)
    assume "\<not> a < b"
    then have "b \<le> a" by simp
    then have "(2::rat) powi b \<le> 2 powi a" by (rule power_int_increasing) simp
    with \<open>pow2 a < pow2 b\<close> show False by (simp add: pow2_power_int)
  qed
next
  assume "a < b"
  then have "(2::rat) powi a < 2 powi b" by (rule power_int_strict_increasing) simp
  then show "pow2 a < pow2 b" by (simp add: pow2_power_int)
qed

lemma pow2_add: "pow2 (a + b) = pow2 a * pow2 b"
  by (simp add: pow2_power_int power_int_add)

lemma ilog2_unique:
  assumes "pow2 k \<le> x" and "x < pow2 (k + 1)"
  shows "ilog2 x = k"
proof -
  have x: "0 < x" using assms(1) pow2_pos [of k] by linarith
  from ilog2_bounds [OF x] have b: "pow2 (ilog2 x) \<le> x" "x < pow2 (ilog2 x + 1)" by simp_all
  from b(1) assms(2) have "pow2 (ilog2 x) < pow2 (k + 1)" by linarith
  then have 1: "ilog2 x < k + 1" by (simp only: pow2_less_iff)
  from assms(1) b(2) have "pow2 k < pow2 (ilog2 x + 1)" by linarith
  then have 2: "k < ilog2 x + 1" by (simp only: pow2_less_iff)
  from 1 2 show ?thesis by simp
qed

text \<open>A number with a significand of at most 53 bits is a double: rounding leaves it as it is.\<close>

lemma toDouble_exact:
  assumes "0 < m" and "m < 2 ^ 53"
  shows "toDouble (of_nat m * pow2 k) = of_nat m * pow2 k"
proof -
  define x :: rat where "x = of_nat m * pow2 k"
  have p: "0 < pow2 j" for j by (rule pow2_pos)
  have x: "0 < x" using assms(1) p by (simp add: x_def)
  define e where "e = ilog2 x - 52"
  from ilog2_bounds [OF x] have b: "pow2 (ilog2 x) \<le> x" by simp
  have "(of_nat m :: rat) < 2 ^ 53"
    using assms(2) by (metis of_nat_less_iff of_nat_numeral of_nat_power)
  then have "x < 2 ^ 53 * pow2 k" using p [of k] by (simp add: x_def)
  also have "\<dots> = pow2 (k + 53)"
  proof -
    have "pow2 53 = 2 ^ 53" by (simp add: pow2_def)
    with pow2_add [of k 53] show ?thesis by simp
  qed
  finally have "pow2 (ilog2 x) < pow2 (k + 53)" using b by linarith
  then have "ilog2 x < k + 53" by (simp only: pow2_less_iff)
  then have d: "0 \<le> k - e" by (simp add: e_def)
  have "pow2 k = pow2 ((k - e) + e)" by simp
  also have "\<dots> = pow2 (k - e) * pow2 e" by (rule pow2_add)
  finally have "x / pow2 e = of_nat m * pow2 (k - e)"
    using p [of e] by (simp add: x_def)
  also have "pow2 (k - e) = 2 ^ nat (k - e)" using d by (simp add: pow2_def)
  also have "(of_nat m :: rat) * 2 ^ nat (k - e) = of_int (int m * 2 ^ nat (k - e))" by simp
  finally have "roundHalfEven (x / pow2 e) = int m * 2 ^ nat (k - e)"
    by (simp only: roundHalfEven_of_int)
  moreover have "(of_int (int m * 2 ^ nat (k - e)) :: rat) * pow2 e = x"
  proof -
    have "(of_int (int m * 2 ^ nat (k - e)) :: rat) * pow2 e = of_nat m * (pow2 (k - e) * pow2 e)"
      using d by (simp add: pow2_def)
    also have "pow2 (k - e) * pow2 e = pow2 ((k - e) + e)" by (rule pow2_add [symmetric])
    finally show ?thesis by (simp add: x_def)
  qed
  ultimately have "toDouble x = x"
    using x by (simp add: toDouble_def Let_def e_def [symmetric])
  then show ?thesis by (simp add: x_def)
qed

lemma toDouble_power: "toDouble (2 ^ n) = 2 ^ n"
  using toDouble_exact [of 1 "int n"] by (simp add: pow2_of_nat)

lemma toDouble_power_1000: "toDouble (2 ^ n * 1000) = 2 ^ n * 1000"
proof -
  have "pow2 (int (n + 3)) = 2 ^ n * 8"
    by (simp only: pow2_of_nat power_add) simp
  then have e: "of_nat 125 * pow2 (int (n + 3)) = (2::rat) ^ n * 1000"
    by simp
  have "toDouble (of_nat 125 * pow2 (int (n + 3))) = of_nat 125 * pow2 (int (n + 3))"
    by (rule toDouble_exact) simp_all
  then show ?thesis by (simp only: e)
qed

lemma toDouble_of_nat: "n \<le> 2 ^ 53 \<Longrightarrow> toDouble (of_nat n) = of_nat n"
proof (cases "n = 0 \<or> n = 2 ^ 53")
  case True
  then show ?thesis
  proof
    assume "n = 0"
    then show ?thesis by (simp add: toDouble_def)
  next
    assume "n = 2 ^ 53"
    with toDouble_power [of 53] show ?thesis by simp
  qed
next
  case False
  assume "n \<le> 2 ^ 53"
  with False have "0 < n" "n < 2 ^ 53" by simp_all
  from toDouble_exact [OF this, of 0] show ?thesis by (simp add: pow2_def)
qed

subsection \<open>Comparisons\<close>


lemma strictEquals_Finite: "strictEquals (Finite x) m \<longleftrightarrow> m = Finite x"
  by (cases m) auto


section \<open>Properties of executeWithRetry\<close>

subsection \<open>The delay and the counter\<close>

lemma fromExact_power: "n < 1024 \<Longrightarrow> fromExact (2 ^ n) = Finite (2 ^ n)"
proof -
  assume "n < 1024"
  then have "(2::rat) ^ n < 2 ^ 1024" by (simp only: power_strict_increasing_iff one_less_numeral_iff semiring_norm)
  then show ?thesis by (simp add: fromExact_def toDouble_power)
qed

lemma fromExact_power_overflow: "1024 \<le> n \<Longrightarrow> fromExact (2 ^ n) = Infinity"
proof -
  assume "1024 \<le> n"
  then have "(2::rat) ^ 1024 \<le> 2 ^ n" by (simp only: power_increasing_iff one_less_numeral_iff semiring_norm)
  then have "\<not> (2::rat) ^ n < 2 ^ 1024" by simp
  then show ?thesis by (simp add: fromExact_def toDouble_power)
qed

text \<open>Up to attempt 1014 the delay is the exact product; from attempt 1015 it is \<^verbatim>\<open>Infinity\<close>.\<close>

lemma backoffDelay_exact:
  assumes "attempt \<le> 1014"
  shows "backoffDelay attempt = Finite (2 ^ attempt * 1000)"
proof -
  have "(2::rat) ^ attempt \<le> 2 ^ 1014"
    using assms by (simp only: power_increasing_iff one_less_numeral_iff semiring_norm)
  then have "(2::rat) ^ attempt * 1000 \<le> 2 ^ 1014 * 1000" by simp
  also have "\<dots> < (2::rat) ^ 1014 * 2 ^ 10" by simp
  also have "\<dots> = 2 ^ 1024" by (simp only: power_add [symmetric]) simp
  finally have "fromExact (2 ^ attempt * 1000) = Finite (2 ^ attempt * 1000)"
    by (simp add: fromExact_def toDouble_power_1000)
  moreover have "fromExact (2 ^ attempt) = Finite (2 ^ attempt)"
    using assms by (intro fromExact_power) simp
  ultimately show ?thesis by (simp add: backoffDelay_def)
qed

lemma backoffDelay_overflow:
  assumes "1015 \<le> attempt"
  shows "backoffDelay attempt = Infinity"
proof (cases "attempt < 1024")
  case True
  have "(2::rat) ^ 1024 = 2 ^ 1015 * 2 ^ 9" by (simp only: power_add [symmetric]) simp
  also have "\<dots> \<le> (2::rat) ^ 1015 * 1000" by simp
  also have "(2::rat) ^ 1015 \<le> 2 ^ attempt"
    using assms by (simp only: power_increasing_iff one_less_numeral_iff semiring_norm)
  then have "(2::rat) ^ 1015 * 1000 \<le> 2 ^ attempt * 1000" by simp
  finally have "\<not> (2::rat) ^ attempt * 1000 < 2 ^ 1024" by simp
  then have "fromExact (2 ^ attempt * 1000) = Infinity"
    by (simp add: fromExact_def toDouble_power_1000)
  with fromExact_power [OF True] show ?thesis by (simp add: backoffDelay_def)
next
  case False
  then have "fromExact (2 ^ attempt) = Infinity" by (intro fromExact_power_overflow) simp
  then show ?thesis by (simp add: backoffDelay_def)
qed

lemma backoffDelay_1: "backoffDelay 1 = Finite 2000"
  using backoffDelay_exact [of 1] by simp

lemma backoffDelay_2: "backoffDelay 2 = Finite 4000"
  using backoffDelay_exact [of 2] by simp

lemma backoffDelay_3: "backoffDelay 3 = Finite 8000"
  using backoffDelay_exact [of 3] by simp

lemma backoffDelay_Suc_0: "backoffDelay (Suc 0) = Finite 2000"
  using backoffDelay_1 by simp

lemma backoffDelay_Suc_Suc_0: "backoffDelay (Suc (Suc 0)) = Finite 4000"
  using backoffDelay_2 by (simp add: numeral_2_eq_2)

lemmas backoffDelay_values = backoffDelay_1 backoffDelay_2 backoffDelay_3 backoffDelay_Suc_0
  backoffDelay_Suc_Suc_0

lemma backoffDelay_mono:
  assumes "a \<le> b"
  shows "lessEq (backoffDelay a) (backoffDelay b)"
proof (cases "b \<le> 1014")
  case True
  with assms have "a \<le> 1014" by simp
  have "(2::rat) ^ a \<le> 2 ^ b"
    using assms by (simp only: power_increasing_iff one_less_numeral_iff semiring_norm)
  with True \<open>a \<le> 1014\<close> show ?thesis by (simp add: backoffDelay_exact)
next
  case False
  then have b: "backoffDelay b = Infinity" by (intro backoffDelay_overflow) simp
  show ?thesis
  proof (cases "a \<le> 1014")
    case True
    with b show ?thesis by (simp add: backoffDelay_exact)
  next
    case False
    then have "backoffDelay a = Infinity" by (intro backoffDelay_overflow) simp
    with b show ?thesis by simp
  qed
qed

text \<open>
  \<open>increment\<close> is the addition of doubles: up to \<open>2\<^sup>5\<^sup>3\<close>, which is
  \<open>9007199254740992\<close>, the counter after \<^verbatim>\<open>attempt++\<close> is the double nearest to
  \<open>attempt + 1\<close>.
\<close>

lemma toDouble_beyond_53: "toDouble 9007199254740993 = 9007199254740992"
  by (simp add: double_eval)

lemma increment_double:
  assumes "attempt \<le> 2 ^ 53"
  shows "of_nat (increment attempt) = toDouble (of_nat attempt + 1)"
proof (cases "attempt < 2 ^ 53")
  case True
  then have "Suc attempt \<le> 2 ^ 53" by simp
  from toDouble_of_nat [OF this] True show ?thesis by (simp add: increment_def add.commute)
next
  case False
  with assms have "attempt = 2 ^ 53" by simp
  then show ?thesis by (simp add: increment_def toDouble_beyond_53)
qed

subsection \<open>One turn of the loop\<close>

lemma retryLoop_exhausted:
  "\<not> lessEq (Finite (of_nat a)) m \<Longrightarrow> retryLoop operation m a w = Some (Inl MaxRetriesExceeded, w, [])"
  by (simp add: retryLoop.simps [of operation m a w])

lemma retryLoop_returns:
  assumes "lessEq (Finite (of_nat a)) m" and "operation w = (Inr v, w')"
  shows "retryLoop operation m a w = Some (Inr v, w', [Invoked a])"
  using assms by (simp add: retryLoop.simps [of operation m a w])



lemma retryLoop_retries:
  assumes "lessEq (Finite (of_nat a)) m" and "m \<noteq> Finite (of_nat a)"
    and "operation w = (Inl (Value e), w')"
  shows "retryLoop operation m a w =
           Option.bind (retryLoop operation m (increment a) w')
             (\<lambda>(r, w'', evs).
                Some (r, w'', Invoked a # Warned a e (backoffDelay a) # Slept (backoffDelay a) # evs))"
  using assms by (simp add: retryLoop.simps [of operation m a w] strictEquals_Finite Let_def)

subsection \<open>The ways a run can go\<close>


lemma invocations_append: "invocations (pre @ evs) = invocations pre + invocations evs"
  by (simp add: invocations_def)














text \<open>For an integer \<open>maxRetries\<close>, invocation \<open>k + 1\<close> is within it when \<open>k\<close> is below it.\<close>

lemma lessEq_integer: "lessEq (Finite (of_nat (k + 1))) (Finite (of_nat n)) \<longleftrightarrow> k < n"
proof -
  have "(of_nat (k + 1) :: rat) \<le> of_nat n \<longleftrightarrow> k + 1 \<le> n" by (simp only: of_nat_le_iff)
  then show ?thesis by auto
qed


subsection \<open>An operation that always fails\<close>




subsection \<open>An operation that fails a few times and then succeeds\<close>




subsection \<open>The backoff policy\<close>

lemma fromExact_delay: "fromExact (1000 * 2 ^ attempt) = backoffDelay attempt"
proof (cases "attempt \<le> 1014")
  case True
  have "(2::rat) ^ attempt \<le> 2 ^ 1014"
    using True by (simp only: power_increasing_iff one_less_numeral_iff semiring_norm)
  then have "(2::rat) ^ attempt * 1000 \<le> 2 ^ 1014 * 1000" by simp
  also have "\<dots> < (2::rat) ^ 1014 * 2 ^ 10" by simp
  also have "\<dots> = 2 ^ 1024" by (simp only: power_add [symmetric]) simp
  finally have "fromExact (2 ^ attempt * 1000) = Finite (2 ^ attempt * 1000)"
    by (simp add: fromExact_def toDouble_power_1000)
  with True show ?thesis by (simp add: backoffDelay_exact mult.commute)
next
  case False
  then have a: "1015 \<le> attempt" by simp
  have "(2::rat) ^ 1024 = 2 ^ 1015 * 2 ^ 9" by (simp only: power_add [symmetric]) simp
  also have "\<dots> \<le> (2::rat) ^ 1015 * 1000" by simp
  also have "(2::rat) ^ 1015 \<le> 2 ^ attempt"
    using a by (simp only: power_increasing_iff one_less_numeral_iff semiring_norm)
  then have "(2::rat) ^ 1015 * 1000 \<le> 2 ^ attempt * 1000" by simp
  finally have "\<not> (2::rat) ^ attempt * 1000 < 2 ^ 1024" by simp
  then have "fromExact (2 ^ attempt * 1000) = Infinity"
    by (simp add: fromExact_def toDouble_power_1000)
  with a show ?thesis by (simp add: backoffDelay_overflow mult.commute)
qed

text \<open>
  Claim C5. The wait after a failed attempt is the number \<open>1000 * 2\<^sup>a\<^sup>t\<^sup>t\<^sup>e\<^sup>m\<^sup>p\<^sup>t\<close> (base 1000,
  in milliseconds): exactly that product up to attempt 1014, and \<^verbatim>\<open>Infinity\<close>, which is
  what this product is as a double, from attempt 1015. It is 2000, 4000 and 8000 ms
  after attempts 1, 2 and 3, and never shorter after a later attempt. It is the wait of
  the retry loop: an attempt that is followed by a retry is followed by a warning and a
  sleep of exactly that length.
\<close>

theorem backoff_policy:
  "backoffDelay attempt = fromExact (1000 * 2 ^ attempt)
   \<and> (attempt \<le> 1014 \<longrightarrow> backoffDelay attempt = Finite (1000 * 2 ^ attempt))
   \<and> (1015 \<le> attempt \<longrightarrow> backoffDelay attempt = Infinity)
   \<and> backoffDelay 1 = Finite 2000 \<and> backoffDelay 2 = Finite 4000 \<and> backoffDelay 3 = Finite 8000
   \<and> (a \<le> b \<longrightarrow> lessEq (backoffDelay a) (backoffDelay b))
   \<and> (lessEq (Finite (of_nat attempt)) maxRetries \<and> maxRetries \<noteq> Finite (of_nat attempt)
        \<and> fst (operation w) = Inl (Value e)
        \<and> retryLoop operation maxRetries attempt w = Some (r, w', events) \<longrightarrow>
        take 3 events =
          [Invoked attempt, Warned attempt e (backoffDelay attempt), Slept (backoffDelay attempt)])"
proof -
  have "take 3 events =
      [Invoked attempt, Warned attempt e (backoffDelay attempt), Slept (backoffDelay attempt)]"
    if le: "lessEq (Finite (of_nat attempt)) maxRetries"
      and ne: "maxRetries \<noteq> Finite (of_nat attempt)"
      and fails: "fst (operation w) = Inl (Value e)"
      and run: "retryLoop operation maxRetries attempt w = Some (r, w', events)"
  proof -
    from fails obtain w1 where "operation w = (Inl (Value e), w1)"
      by (cases "operation w") auto
    from retryLoop_retries [where operation = operation and w = w, OF le ne this] run
    show ?thesis by (auto split: Option.bind_splits)
  qed
  moreover have "attempt \<le> 1014 \<longrightarrow> backoffDelay attempt = Finite (1000 * 2 ^ attempt)"
    by (simp add: backoffDelay_exact mult.commute)
  moreover have "1015 \<le> attempt \<longrightarrow> backoffDelay attempt = Infinity"
    by (simp add: backoffDelay_overflow)
  moreover have "a \<le> b \<longrightarrow> lessEq (backoffDelay a) (backoffDelay b)"
    by (simp add: backoffDelay_mono)
  moreover note fromExact_delay [of attempt, symmetric] backoffDelay_1 backoffDelay_2 backoffDelay_3
  ultimately show ?thesis by blast
qed

text \<open>
  Attempts 1 and 2, the order of their delays, and the first turn of a loop of three
  attempts whose operation rejects with an error.
\<close>

theorem backoff_policy_witness:
  "(1::nat) \<le> 1014 \<and> backoffDelay 1 = Finite (1000 * 2 ^ 1)
   \<and> (1::nat) \<le> 2 \<and> lessEq (backoffDelay 1) (backoffDelay 2)
   \<and> lessEq (Finite (of_nat 1)) (Finite 3) \<and> Finite 3 \<noteq> Finite (of_nat 1)
   \<and> fst ((\<lambda>c::nat. (Inl (Value ''busy'') :: string thrown + unit, Suc c)) 0) = Inl (Value ''busy'')
   \<and> retryLoop (\<lambda>c::nat. (Inl (Value ''busy'') :: string thrown + unit, Suc c)) (Finite 3) 1 0 =
        Some (Inl (Thrown (Value ''busy'')), 3,
              [Invoked 1, Warned 1 ''busy'' (Finite 2000), Slept (Finite 2000),
               Invoked 2, Warned 2 ''busy'' (Finite 4000), Slept (Finite 4000), Invoked 3])
   \<and> take 3 [Invoked 1, Warned 1 ''busy'' (Finite 2000), Slept (Finite 2000),
              Invoked 2, Warned 2 ''busy'' (Finite 4000), Slept (Finite 4000), Invoked 3 :: string retry_event] =
        [Invoked 1, Warned 1 ''busy'' (backoffDelay 1), Slept (backoffDelay 1)]"
proof -
  let ?op = "\<lambda>c::nat. (Inl (Value ''busy'') :: string thrown + unit, Suc c)"
  let ?events = "[Invoked 1, Warned 1 ''busy'' (Finite 2000), Slept (Finite 2000),
      Invoked 2, Warned 2 ''busy'' (Finite 4000), Slept (Finite 4000), Invoked 3 :: string retry_event]"
  have run: "retryLoop ?op (Finite 3) 1 0 = Some (Inl (Thrown (Value ''busy'')), 3, ?events)"
    by (simp add: retryLoop.simps increment_def Let_def backoffDelay_values)
  note T = backoff_policy [where attempt = 1 and a = 1 and b = 2 and maxRetries = "Finite 3"
      and operation = ?op and w = 0 and e = "''busy''" and r = "Inl (Thrown (Value ''busy''))"
      and w' = 3 and events = ?events]
  have h1: "(1::nat) \<le> 1014" and h2: "(1::nat) \<le> 2" by simp_all
  have h3: "lessEq (Finite (of_nat 1)) (Finite 3)" and h4: "Finite 3 \<noteq> Finite (of_nat 1)"
    by simp_all
  have h5: "fst (?op 0) = Inl (Value ''busy'')" by simp
  from T h1 have a: "backoffDelay 1 = Finite (1000 * 2 ^ 1)" by blast
  from T h2 have b: "lessEq (backoffDelay 1) (backoffDelay 2)" by blast
  from T h3 h4 h5 run have c: "take 3 ?events =
      [Invoked 1, Warned 1 ''busy'' (backoffDelay 1), Slept (backoffDelay 1)]"
    by blast
  from h1 a h2 b h3 h4 h5 run c show ?thesis by blast
qed

subsection \<open>The error made after the loop\<close>




subsection \<open>Other values of maxRetries and of the rejection\<close>

text \<open>
  With a \<open>maxRetries\<close> that the first attempt is not within (zero, a negative number, a
  fraction below 1, \<^verbatim>\<open>NaN\<close>) the operation is never called and the error of line 17 is
  thrown.
\<close>

lemma executeWithRetry_no_attempt:
  "\<not> lessEq (Finite 1) maxRetries \<Longrightarrow>
     executeWithRetry operation maxRetries w = Some (Inl MaxRetriesExceeded, w, [])"
  using retryLoop_exhausted [of 1 maxRetries operation w] by (simp add: executeWithRetry_def)

lemma executeWithRetry_zero:
  "executeWithRetry operation (Finite 0) w = Some (Inl MaxRetriesExceeded, w, [])"
  by (simp add: executeWithRetry_no_attempt)

lemma executeWithRetry_NaN:
  "executeWithRetry operation NaN w = Some (Inl MaxRetriesExceeded, w, [])"
  by (simp add: executeWithRetry_no_attempt)

text \<open>
  With \<^verbatim>\<open>Infinity\<close> there is no last attempt: an operation that succeeds at its third call
  is called three times.
\<close>

lemma executeWithRetry_Infinity:
  "executeWithRetry
     (\<lambda>c::nat. (if c < 2 then Inl (Value ''busy'') else Inr ''ok'' :: string thrown + string, Suc c))
     Infinity 0 =
   Some (Inr ''ok'', 3,
         [Invoked 1, Warned 1 ''busy'' (Finite 2000), Slept (Finite 2000),
          Invoked 2, Warned 2 ''busy'' (Finite 4000), Slept (Finite 4000), Invoked 3])"
  by (simp add: executeWithRetry_def retryLoop.simps increment_def Let_def backoffDelay_values)

text \<open>
  At the last attempt line 10 throws what the operation rejected with before line 13 is
  reached, so \<^verbatim>\<open>undefined\<close> and \<^verbatim>\<open>null\<close> are passed on like any other value; before the
  last attempt \<^verbatim>\<open>null\<close> ends the call like \<^verbatim>\<open>undefined\<close> does.
\<close>

lemma executeWithRetry_undefined_at_last_attempt:
  "executeWithRetry (\<lambda>c::nat. (Inl Undefined :: string thrown + unit, Suc c)) (Finite 1) 0 =
     Some (Inl (Thrown Undefined), 1, [Invoked 1])"
  by (simp add: executeWithRetry_def retryLoop.simps)

lemma executeWithRetry_null_rejection:
  "executeWithRetry (\<lambda>c::nat. (Inl Null :: string thrown + unit, Suc c)) (Finite 3) 0 =
     Some (Inl MessageTypeError, 1, [Invoked 1])"
  by (simp add: executeWithRetry_def retryLoop.simps)

section \<open>Properties of the chunking\<close>

lemma chunkLoop_step:
  "i < length p \<Longrightarrow> 0 < n \<Longrightarrow> chunkLoop n i p = take n (drop i p) # chunkLoop n (i + n) p"
  by (simp add: chunkLoop.simps [of n i p] slice_def)

lemma chunkLoop_done: "\<not> i < length p \<Longrightarrow> chunkLoop n i p = []"
  by (simp add: chunkLoop.simps [of n i p])

text \<open>Chunk \<open>j\<close> exists exactly when its first byte does.\<close>

lemma length_chunkLoop_iff:
  "0 < n \<Longrightarrow> j < length (chunkLoop n i p) \<longleftrightarrow> i + j * n < length p"
proof (induction j arbitrary: i)
  case 0
  then show ?case by (cases "i < length p") (simp_all add: chunkLoop_step chunkLoop_done)
next
  case (Suc j)
  show ?case
  proof (cases "i < length p")
    case True
    with Suc.prems Suc.IH [of "i + n"] show ?thesis
      by (simp add: chunkLoop_step ac_simps)
  next
    case False
    then show ?thesis by (simp add: chunkLoop_done)
  qed
qed

lemma nth_chunkLoop:
  "0 < n \<Longrightarrow> j < length (chunkLoop n i p) \<Longrightarrow> chunkLoop n i p ! j = take n (drop (i + j * n) p)"
proof (induction j arbitrary: i)
  case 0
  then have "i < length p" using length_chunkLoop_iff [of n 0 i p] by simp
  with 0 show ?case by (simp add: chunkLoop_step)
next
  case (Suc j)
  then have "i < length p" using length_chunkLoop_iff [of n "Suc j" i p] by simp
  with Suc.prems Suc.IH [of "i + n"] show ?case
    by (simp add: chunkLoop_step ac_simps)
qed

lemma concat_chunkLoop: "0 < n \<Longrightarrow> concat (chunkLoop n i p) = drop i p"
proof (induction n i p rule: chunkLoop.induct)
  case (1 n i p)
  show ?case
  proof (cases "i < length p")
    case True
    with 1 have "concat (chunkLoop n (i + n) p) = drop (i + n) p" by simp
    moreover have "take n (drop i p) @ drop (i + n) p = drop i p"
      by (metis add.commute append_take_drop_id drop_drop)
    ultimately show ?thesis using True 1(2) by (simp add: chunkLoop_step)
  next
    case False
    then show ?thesis by (simp add: chunkLoop_done)
  qed
qed

lemma slice_min: "slice p s (min e (length p)) = slice p s e"
  by (simp add: slice_def min_def)

text \<open>
  Claim C2. For every payload \<open>p\<close> and chunk size \<open>n > 0\<close>: concatenating the chunks in
  order gives back \<open>p\<close>; chunk \<open>i\<close> is the byte range from \<open>i * n\<close> to
  \<open>min ((i + 1) * n) (length p)\<close>, and there is a chunk \<open>i\<close> exactly when \<open>i * n\<close> is below
  the length; every chunk but the last has length \<open>n\<close>; the last has length
  \<open>length p mod n\<close>, or \<open>n\<close> when that is 0. The chunks of \<^verbatim>\<open>deployLargeContract\<close> are
  the same ones for a non-empty payload (for the empty payload it submits one empty
  chunk), and they too concatenate to \<open>p\<close>.
\<close>

theorem split_reassemble:
  assumes "0 < n"
  shows "concat (splitChunks n p) = p
    \<and> (\<forall>i < length (splitChunks n p).
          splitChunks n p ! i = slice p (i * n) (min ((i + 1) * n) (length p)))
    \<and> (\<forall>i. i < length (splitChunks n p) \<longleftrightarrow> i * n < length p)
    \<and> (\<forall>i. i + 1 < length (splitChunks n p) \<longrightarrow> length (splitChunks n p ! i) = n)
    \<and> (p \<noteq> [] \<longrightarrow> length (last (splitChunks n p)) =
          (if length p mod n = 0 then n else length p mod n))
    \<and> concat (deployChunks n p) = p
    \<and> (p \<noteq> [] \<longrightarrow> deployChunks n p = splitChunks n p)"
proof -
  let ?cs = "splitChunks n p"
  have len: "i < length ?cs \<longleftrightarrow> i * n < length p" for i
    using length_chunkLoop_iff [OF assms, of i 0 p] by (simp add: splitChunks_def)
  have nth: "?cs ! i = take n (drop (i * n) p)" if "i < length ?cs" for i
    using nth_chunkLoop [OF assms, of i 0 p] that by (simp add: splitChunks_def)
  have c1: "concat ?cs = p"
    using concat_chunkLoop [OF assms, of 0 p] by (simp add: splitChunks_def)
  have c2: "?cs ! i = slice p (i * n) (min ((i + 1) * n) (length p))" if "i < length ?cs" for i
    using nth [OF that] by (simp add: slice_min) (simp add: slice_def)
  have c4: "length (?cs ! i) = n" if "i + 1 < length ?cs" for i
  proof -
    from that have "(i + 1) * n < length p" using len by blast
    moreover from that have "i < length ?cs" by simp
    ultimately show ?thesis using nth [of i] by simp
  qed
  have c5: "length (last ?cs) = (if length p mod n = 0 then n else length p mod n)" if "p \<noteq> []"
  proof -
    from that assms have ne: "?cs \<noteq> []" using len [of 0] by auto
    define j where "j = length ?cs - 1"
    have j: "j < length ?cs" "\<not> j + 1 < length ?cs" using ne by (simp_all add: j_def)
    then have lo: "j * n < length p" and hi: "length p \<le> (j + 1) * n"
      using len [of j] len [of "j + 1"] by auto
    have "last ?cs = ?cs ! j" using ne by (simp add: last_conv_nth j_def)
    then have l: "length (last ?cs) = length p - j * n"
      using nth [OF j(1)] hi by simp
    show ?thesis
    proof (cases "length p = (j + 1) * n")
      case True
      then show ?thesis using l by simp
    next
      case False
      define r where "r = length p - j * n"
      from False hi lo have "length p = j * n + r" "0 < r" "r < n"
        by (simp_all add: r_def)
      then show ?thesis using l by simp
    qed
  qed
  have c6: "concat (deployChunks n p) = p"
    using concat_chunkLoop [OF assms, of n p] by (simp add: deployChunks_def slice_def)
  have c7: "deployChunks n p = ?cs" if "p \<noteq> []"
    using that assms by (simp add: deployChunks_def splitChunks_def chunkLoop_step slice_def)
  from c1 c2 len c4 c5 c6 c7 show ?thesis by blast
qed

text \<open>Five bytes in chunks of two: two full chunks and a last one of \<open>5 mod 2\<close> bytes.\<close>

theorem split_reassemble_witness:
  "(0::nat) < 2
   \<and> splitChunks 2 [1, 2, 3, 4, 5 :: byte] = [[1, 2], [3, 4], [5]]
   \<and> deployChunks 2 [1, 2, 3, 4, 5 :: byte] = [[1, 2], [3, 4], [5]]
   \<and> concat (splitChunks 2 [1, 2, 3, 4, 5 :: byte]) = [1, 2, 3, 4, 5]
   \<and> length (last (splitChunks 2 [1, 2, 3, 4, 5 :: byte])) = 1"
proof -
  have s: "splitChunks 2 [1, 2, 3, 4, 5 :: byte] = [[1, 2], [3, 4], [5]]"
    by (simp add: splitChunks_def chunkLoop.simps slice_def)
  have d: "deployChunks 2 [1, 2, 3, 4, 5 :: byte] = [[1, 2], [3, 4], [5]]"
    by (simp add: deployChunks_def chunkLoop.simps slice_def)
  have h: "(0::nat) < 2" by simp
  from split_reassemble [OF h, of "[1, 2, 3, 4, 5 :: byte]"]
  have "concat (splitChunks 2 [1, 2, 3, 4, 5 :: byte]) = [1, 2, 3, 4, 5]"
    by (rule conjunct1)
  with h s d show ?thesis by simp
qed

text \<open>
  The sizes of the specification's end-to-end scenario: a payload of 10000 bytes is cut by
  \<^verbatim>\<open>createFile\<close> into two chunks of 6144 and 3856 bytes.
\<close>

lemma split_10000_bytes:
  "map length (splitChunks 6144 (replicate 10000 (b :: byte))) = [6144, 3856]"
  by (simp add: splitChunks_def chunkLoop.simps slice_def)

section \<open>Properties of monitorTransaction\<close>

lemma pollOutcome_Confirmed_iff:
  "pollOutcome r = Confirmed \<longleftrightarrow> (\<exists>ts rest. r = Body (Some (Entry ts # rest)) \<and> truthy ts)"
  by (cases r rule: pollOutcome.cases) auto


lemma monitorLoop_confirmed_step:
  assumes "i < 10" and "fetch (transactionUrl t) n = (r, n')" and "pollOutcome r = Confirmed"
  shows "monitorLoop fetch t i n =
           ((), n', [Fetched (transactionUrl t), ConsoleLog ''Transaction confirmed:''])"
  using assms by (simp add: monitorLoop.simps [of fetch t i n])

lemma monitorLoop_retry_step:
  assumes "i < 10" and "fetch (transactionUrl t) n = (r, n')" and "pollOutcome r \<noteq> Confirmed"
  shows "\<exists>pre. fst (snd (monitorLoop fetch t i n)) = fst (snd (monitorLoop fetch t (i + 1) n'))
           \<and> snd (snd (monitorLoop fetch t i n)) =
               Fetched (transactionUrl t) # pre @ Waited 2000 # snd (snd (monitorLoop fetch t (i + 1) n'))
           \<and> reads pre = 0 \<and> waits pre = []"
proof (cases "pollOutcome r")
  case Confirmed
  with assms(3) show ?thesis by simp
next
  case NotConfirmed
  with assms(1,2) have "fst (snd (monitorLoop fetch t i n)) = fst (snd (monitorLoop fetch t (i + 1) n'))
      \<and> snd (snd (monitorLoop fetch t i n)) =
          Fetched (transactionUrl t) # [] @ Waited 2000 # snd (snd (monitorLoop fetch t (i + 1) n'))"
    by (simp add: monitorLoop.simps [of fetch t i n] split: prod.splits)
  then show ?thesis by (intro exI [of _ "[]"]) (simp add: reads_def)
next
  case (PollFailed e)
  with assms(1,2) have "fst (snd (monitorLoop fetch t i n)) = fst (snd (monitorLoop fetch t (i + 1) n'))
      \<and> snd (snd (monitorLoop fetch t i n)) =
          Fetched (transactionUrl t) # [ConsoleWarn ''Monitor poll failed:''] @ Waited 2000
            # snd (snd (monitorLoop fetch t (i + 1) n'))"
    by (simp add: monitorLoop.simps [of fetch t i n] split: prod.splits)
  then show ?thesis
    by (intro exI [of _ "[ConsoleWarn ''Monitor poll failed:'']"]) (simp add: reads_def)
qed

lemma monitorLoop_exhausted:
  "\<not> i < 10 \<Longrightarrow> monitorLoop fetch t i n =
     ((), n, [ConsoleWarn (''Transaction '' @ t @ '' not confirmed after 10 polls'')])"
  by (simp add: monitorLoop.simps [of fetch t i n])

lemma reads_append: "reads (xs @ ys) = reads xs + reads ys"
  by (simp add: reads_def)

lemma waits_append: "waits (xs @ ys) = waits xs @ waits ys"
  by (induction xs rule: waits.induct) simp_all

lemma monitorLoop_confirms:
  assumes "i + m < 10"
    and "\<forall>j<m. pollOutcome (fst (fetch (transactionUrl t) (stateAfter (fetch (transactionUrl t)) j n)))
           \<noteq> Confirmed"
    and "pollOutcome (fst (fetch (transactionUrl t) (stateAfter (fetch (transactionUrl t)) m n)))
           = Confirmed"
  shows "fst (snd (monitorLoop fetch t i n)) = stateAfter (fetch (transactionUrl t)) (Suc m) n
         \<and> reads (snd (snd (monitorLoop fetch t i n))) = Suc m
         \<and> waits (snd (snd (monitorLoop fetch t i n))) = replicate m 2000
         \<and> snd (snd (monitorLoop fetch t i n)) \<noteq> []
         \<and> last (snd (snd (monitorLoop fetch t i n))) = ConsoleLog ''Transaction confirmed:''"
  using assms
proof (induction m arbitrary: i n)
  case 0
  obtain r n' where f: "fetch (transactionUrl t) n = (r, n')"
    by (cases "fetch (transactionUrl t) n") auto
  with 0 have "i < 10" "pollOutcome r = Confirmed" by simp_all
  with f have "monitorLoop fetch t i n =
      ((), n', [Fetched (transactionUrl t), ConsoleLog ''Transaction confirmed:''])"
    by (intro monitorLoop_confirmed_step)
  with f show ?case
    by (simp add: reads_def)
next
  case (Suc m)
  obtain r n' where f: "fetch (transactionUrl t) n = (r, n')"
    by (cases "fetch (transactionUrl t) n") auto
  from Suc.prems(2) f have nc: "pollOutcome r \<noteq> Confirmed" by force
  have i: "i < 10" using Suc.prems(1) by simp
  have a: "(i + 1) + m < 10" using Suc.prems(1) by simp
  have b: "\<forall>j<m. pollOutcome (fst (fetch (transactionUrl t) (stateAfter (fetch (transactionUrl t)) j n')))
           \<noteq> Confirmed"
    using Suc.prems(2) f by (metis Suc_less_eq snd_conv stateAfter.simps(2))
  have c: "pollOutcome (fst (fetch (transactionUrl t) (stateAfter (fetch (transactionUrl t)) m n')))
           = Confirmed"
    using Suc.prems(3) f by simp
  note IH = Suc.IH [OF a b c]
  from monitorLoop_retry_step [of i fetch t n r n', OF i f nc] obtain pre where
    p: "fst (snd (monitorLoop fetch t i n)) = fst (snd (monitorLoop fetch t (i + 1) n'))"
      "snd (snd (monitorLoop fetch t i n)) =
         Fetched (transactionUrl t) # pre @ Waited 2000 # snd (snd (monitorLoop fetch t (i + 1) n'))"
      "reads pre = 0" "waits pre = []"
    by blast
  from IH p f show ?case
    by (simp add: reads_append waits_append) (simp add: reads_def)
qed

lemma monitorLoop_times_out:
  assumes "i + k = 10"
    and "\<forall>j<k. pollOutcome (fst (fetch (transactionUrl t) (stateAfter (fetch (transactionUrl t)) j n)))
           \<noteq> Confirmed"
  shows "fst (snd (monitorLoop fetch t i n)) = stateAfter (fetch (transactionUrl t)) k n
         \<and> reads (snd (snd (monitorLoop fetch t i n))) = k
         \<and> waits (snd (snd (monitorLoop fetch t i n))) = replicate k 2000
         \<and> snd (snd (monitorLoop fetch t i n)) \<noteq> []
         \<and> last (snd (snd (monitorLoop fetch t i n))) =
             ConsoleWarn (''Transaction '' @ t @ '' not confirmed after 10 polls'')"
  using assms
proof (induction k arbitrary: i n)
  case 0
  then have "\<not> i < 10" by simp
  then show ?case
    by (simp add: monitorLoop_exhausted reads_def)
next
  case (Suc k)
  obtain r n' where f: "fetch (transactionUrl t) n = (r, n')"
    by (cases "fetch (transactionUrl t) n") auto
  from Suc.prems(2) f have nc: "pollOutcome r \<noteq> Confirmed" by force
  have i: "i < 10" using Suc.prems(1) by simp
  have a: "(i + 1) + k = 10" using Suc.prems(1) by simp
  have b: "\<forall>j<k. pollOutcome (fst (fetch (transactionUrl t) (stateAfter (fetch (transactionUrl t)) j n')))
           \<noteq> Confirmed"
    using Suc.prems(2) f by (metis Suc_less_eq snd_conv stateAfter.simps(2))
  note IH = Suc.IH [OF a b]
  from monitorLoop_retry_step [of i fetch t n r n', OF i f nc] obtain pre where
    p: "fst (snd (monitorLoop fetch t i n)) = fst (snd (monitorLoop fetch t (i + 1) n'))"
      "snd (snd (monitorLoop fetch t i n)) =
         Fetched (transactionUrl t) # pre @ Waited 2000 # snd (snd (monitorLoop fetch t (i + 1) n'))"
      "reads pre = 0" "waits pre = []"
    by blast
  from IH p f show ?case
    by (simp add: reads_append waits_append) (simp add: reads_def)
qed

text \<open>
  Claim C6, as the code has it. With a read model that shows no confirmed record on the
  first \<open>m\<close> reads, \<open>m\<close> below 10, and a confirmed one on the next, \<open>monitorTransaction\<close>
  stops after exactly \<open>m + 1\<close> reads, its last act being the log line
  \<^verbatim>\<open>Transaction confirmed:\<close>, having waited 2000 ms after each earlier read. With a read
  model that shows no confirmed record on any of the first 10 reads it stops after exactly
  10 reads (the number is fixed in the code), having waited 2000 ms after each of them, its
  last act being the warning that the transaction was not confirmed after 10 polls. Either
  way it returns nothing: the outcome is to be seen in the log only. A read shows a
  confirmed record exactly when the response is ok, its body has a non-empty
  \<^verbatim>\<open>transactions\<close> array, and the first element has a truthy \<^verbatim>\<open>consensus_timestamp\<close>
  (neither absent, \<^verbatim>\<open>null\<close>, \<^verbatim>\<open>false\<close>, 0 nor the empty string).
\<close>

theorem monitorTransaction_polls:
  "(m < 10
      \<and> (\<forall>j<m. pollOutcome (fst (fetch (transactionUrl t) (stateAfter (fetch (transactionUrl t)) j n)))
             \<noteq> Confirmed)
      \<and> pollOutcome (fst (fetch (transactionUrl t) (stateAfter (fetch (transactionUrl t)) m n)))
             = Confirmed
    \<longrightarrow> fst (monitorTransaction fetch t n) = ()
      \<and> reads (snd (snd (monitorTransaction fetch t n))) = m + 1
      \<and> waits (snd (snd (monitorTransaction fetch t n))) = replicate m 2000
      \<and> last (snd (snd (monitorTransaction fetch t n))) = ConsoleLog ''Transaction confirmed:'')
   \<and> ((\<forall>j<10. pollOutcome (fst (fetch (transactionUrl t) (stateAfter (fetch (transactionUrl t)) j n)))
             \<noteq> Confirmed)
    \<longrightarrow> fst (monitorTransaction fetch t n) = ()
      \<and> reads (snd (snd (monitorTransaction fetch t n))) = 10
      \<and> waits (snd (snd (monitorTransaction fetch t n))) = replicate 10 2000
      \<and> last (snd (snd (monitorTransaction fetch t n))) =
            ConsoleWarn (''Transaction '' @ t @ '' not confirmed after 10 polls''))
   \<and> (pollOutcome r = Confirmed \<longleftrightarrow>
         (\<exists>consensus_timestamp rest.
            r = Body (Some (Entry consensus_timestamp # rest)) \<and> truthy consensus_timestamp))"
proof (intro conjI impI)
  assume h: "m < 10
      \<and> (\<forall>j<m. pollOutcome (fst (fetch (transactionUrl t) (stateAfter (fetch (transactionUrl t)) j n)))
             \<noteq> Confirmed)
      \<and> pollOutcome (fst (fetch (transactionUrl t) (stateAfter (fetch (transactionUrl t)) m n)))
             = Confirmed"
  then have h1: "0 + m < 10"
    and h2: "\<forall>j<m. pollOutcome (fst (fetch (transactionUrl t) (stateAfter (fetch (transactionUrl t)) j n)))
             \<noteq> Confirmed"
    and h3: "pollOutcome (fst (fetch (transactionUrl t) (stateAfter (fetch (transactionUrl t)) m n)))
             = Confirmed"
    by simp_all
  note c = monitorLoop_confirms [where fetch = fetch and t = t and n = n and i = 0 and m = m, OF h1 h2 h3]
  show "fst (monitorTransaction fetch t n) = ()" by simp
  show "reads (snd (snd (monitorTransaction fetch t n))) = m + 1"
    using c by (simp add: monitorTransaction_def)
  show "waits (snd (snd (monitorTransaction fetch t n))) = replicate m 2000"
    using c by (simp add: monitorTransaction_def)
  show "last (snd (snd (monitorTransaction fetch t n))) = ConsoleLog ''Transaction confirmed:''"
    using c by (simp add: monitorTransaction_def)
next
  assume h: "\<forall>j<10. pollOutcome (fst (fetch (transactionUrl t) (stateAfter (fetch (transactionUrl t)) j n)))
             \<noteq> Confirmed"
  have e: "0 + 10 = (10::nat)" by simp
  note c = monitorLoop_times_out [where fetch = fetch and t = t and n = n and i = 0 and k = 10, OF e h]
  show "fst (monitorTransaction fetch t n) = ()" by simp
  show "reads (snd (snd (monitorTransaction fetch t n))) = 10"
    using c by (simp add: monitorTransaction_def)
  show "waits (snd (snd (monitorTransaction fetch t n))) = replicate 10 2000"
    using c by (simp add: monitorTransaction_def)
  show "last (snd (snd (monitorTransaction fetch t n))) =
            ConsoleWarn (''Transaction '' @ t @ '' not confirmed after 10 polls'')"
    using c by (simp add: monitorTransaction_def)
next
  show "pollOutcome r = Confirmed \<longleftrightarrow>
         (\<exists>consensus_timestamp rest.
            r = Body (Some (Entry consensus_timestamp # rest)) \<and> truthy consensus_timestamp)"
    by (rule pollOutcome_Confirmed_iff)
qed

text \<open>
  A mirror node, with the number of reads so far as its state, that answers the first two
  reads with a response that is not ok and the third with a record carrying a consensus
  timestamp: three reads. One that always answers with an empty array: ten reads.
\<close>

theorem monitorTransaction_polls_witness:
  "reads (snd (snd (monitorTransaction
       (\<lambda>url k. (if k < 2 then NotOk else Body (Some [Entry (JString ''1700000000.000000001'')]), Suc k))
       ''0.0.7@1'' (0::nat)))) = 3
   \<and> last (snd (snd (monitorTransaction
       (\<lambda>url k. (if k < 2 then NotOk else Body (Some [Entry (JString ''1700000000.000000001'')]), Suc k))
       ''0.0.7@1'' (0::nat)))) = ConsoleLog ''Transaction confirmed:''
   \<and> reads (snd (snd (monitorTransaction (\<lambda>url k. (Body (Some []), Suc k)) ''0.0.7@1'' (0::nat)))) = 10
   \<and> last (snd (snd (monitorTransaction (\<lambda>url k. (Body (Some []), Suc k)) ''0.0.7@1'' (0::nat)))) =
        ConsoleWarn ''Transaction 0.0.7@1 not confirmed after 10 polls''"
proof -
  let ?f = "\<lambda>(url::string) k::nat.
    (if k < 2 then NotOk else Body (Some [Entry (JString ''1700000000.000000001'')]), Suc k)"
  let ?g = "\<lambda>(url::string) k::nat. (Body (Some []), Suc k)"
  have s: "stateAfter (?f u) j 0 = j" for j and u :: string
  proof -
    have "stateAfter (?f u) j i = i + j" for i
      by (induction j arbitrary: i) simp_all
    then show ?thesis by simp
  qed
  have hf: "(2::nat) < 10
      \<and> (\<forall>j<2. pollOutcome (fst (?f (transactionUrl ''0.0.7@1'') (stateAfter (?f (transactionUrl ''0.0.7@1'')) j 0)))
             \<noteq> Confirmed)
      \<and> pollOutcome (fst (?f (transactionUrl ''0.0.7@1'') (stateAfter (?f (transactionUrl ''0.0.7@1'')) 2 0)))
             = Confirmed"
    by (simp add: s)
  have hg: "\<forall>j<10. pollOutcome (fst (?g (transactionUrl ''0.0.7@1'') (stateAfter (?g (transactionUrl ''0.0.7@1'')) j 0)))
             \<noteq> Confirmed"
    by simp
  from monitorTransaction_polls [where m = 2 and fetch = ?f and t = "''0.0.7@1''" and n = 0] hf
  have a: "reads (snd (snd (monitorTransaction ?f ''0.0.7@1'' 0))) = 2 + 1
      \<and> last (snd (snd (monitorTransaction ?f ''0.0.7@1'' 0))) = ConsoleLog ''Transaction confirmed:''"
    by blast
  from monitorTransaction_polls [where fetch = ?g and t = "''0.0.7@1''" and n = 0] hg
  have b: "reads (snd (snd (monitorTransaction ?g ''0.0.7@1'' 0))) = 10
      \<and> last (snd (snd (monitorTransaction ?g ''0.0.7@1'' 0))) =
           ConsoleWarn (''Transaction '' @ ''0.0.7@1'' @ '' not confirmed after 10 polls'')"
    by blast
  from a b show ?thesis by simp
qed

text \<open>
  Claim C6 as stated also has the resulting state returned to the caller. It is not: a run
  that ends confirmed and a run that ends after ten polls without confirmation return the
  same value, the \<open>()\<close> of \<^verbatim>\<open>Promise<void>\<close>, and differ in the log only.
\<close>

theorem monitorTransaction_returns_no_state:
  "fst (monitorTransaction
         (\<lambda>url n. (Body (Some [Entry (JString ''1700000000.000000001'')]), n)) ''0.0.7@1'' ())
     = fst (monitorTransaction (\<lambda>url n. (NotOk, n)) ''0.0.7@1'' ())
   \<and> last (snd (snd (monitorTransaction
         (\<lambda>url n. (Body (Some [Entry (JString ''1700000000.000000001'')]), n)) ''0.0.7@1'' ())))
     = ConsoleLog ''Transaction confirmed:''
   \<and> last (snd (snd (monitorTransaction (\<lambda>url n. (NotOk, n)) ''0.0.7@1'' ())))
     = ConsoleWarn ''Transaction 0.0.7@1 not confirmed after 10 polls''"
  by (simp add: monitorTransaction_def monitorLoop.simps)

section \<open>Properties of the chunked uploads\<close>

text \<open>One call of a closure as the executor sees it.\<close>

lemma traced_run:
  "traced f (n, es) =
     (case fst (f n) of Inl e \<Rightarrow> Inl (Value e) | Inr v \<Rightarrow> Inr v,
      (networkAfter f n, es @ effectsOf f n))"
  by (simp add: traced_def networkAfter_def effectsOf_def split: prod.splits sum.splits)

text \<open>
  A closure under the executor with its three attempts: the closure is run from the state
  the network is in, again from the state a failed run has left, and a third time when
  that run fails too. The effects of the call are the effects of these runs, one after
  the other, and what the third run rejects with reaches the caller.
\<close>

lemma executeWithRetry_three_attempts:
  fixes f :: "('n, 'a) step"
  shows "executeWithRetry (traced f) (Finite 3) (n, []) =
     Some (case fst (f n) of
        Inr v \<Rightarrow> (Inr v, (networkAfter f n, effectsOf f n), [Invoked 1])
      | Inl e1 \<Rightarrow>
          (case fst (f (networkAfter f n)) of
             Inr v \<Rightarrow>
               (Inr v,
                (networkAfter f (networkAfter f n), effectsOf f n @ effectsOf f (networkAfter f n)),
                [Invoked 1, Warned 1 e1 (Finite 2000), Slept (Finite 2000), Invoked 2])
           | Inl e2 \<Rightarrow>
               (case fst (f (networkAfter f (networkAfter f n))) of
                  Inl e3 \<Rightarrow> Inl (Thrown (Value e3))
                | Inr v \<Rightarrow> Inr v,
                (networkAfter f (networkAfter f (networkAfter f n)),
                 effectsOf f n @ effectsOf f (networkAfter f n)
                   @ effectsOf f (networkAfter f (networkAfter f n))),
                [Invoked 1, Warned 1 e1 (Finite 2000), Slept (Finite 2000),
                 Invoked 2, Warned 2 e2 (Finite 4000), Slept (Finite 4000), Invoked 3])))"
proof -
  let ?m = "Finite 3 :: number"
  let ?n1 = "networkAfter f n"
  let ?n2 = "networkAfter f ?n1"
  have le1: "lessEq (Finite (of_nat 1)) ?m" and le2: "lessEq (Finite (of_nat 2)) ?m"
    and ne1: "?m \<noteq> Finite (of_nat 1)" and ne2: "?m \<noteq> Finite (of_nat 2)"
    by simp_all
  have inc: "increment 1 = 2" "increment 2 = 3" by (simp_all add: increment_def)
  have third: "retryLoop (traced f) ?m 3 (?n2, es) =
      Some (case fst (f ?n2) of Inl e3 \<Rightarrow> Inl (Thrown (Value e3)) | Inr v \<Rightarrow> Inr v,
            (networkAfter f ?n2, es @ effectsOf f ?n2), [Invoked 3])" for es
    by (simp add: retryLoop.simps [of _ _ 3] traced_run split: sum.splits)
  have second: "retryLoop (traced f) ?m 2 (?n1, es) =
      Some (case fst (f ?n1) of
          Inr v \<Rightarrow> (Inr v, (?n2, es @ effectsOf f ?n1), [Invoked 2])
        | Inl e2 \<Rightarrow>
            (case fst (f ?n2) of Inl e3 \<Rightarrow> Inl (Thrown (Value e3)) | Inr v \<Rightarrow> Inr v,
             (networkAfter f ?n2, es @ effectsOf f ?n1 @ effectsOf f ?n2),
             [Invoked 2, Warned 2 e2 (Finite 4000), Slept (Finite 4000), Invoked 3]))" for es
  proof (cases "fst (f ?n1)")
    case (Inr v)
    then have "traced f (?n1, es) = (Inr v, (?n2, es @ effectsOf f ?n1))" by (simp add: traced_run)
    from retryLoop_returns [where operation = "traced f" and w = "(?n1, es)" and a = 2, OF le2 this]
      Inr
    show ?thesis by simp
  next
    case (Inl e2)
    then have "traced f (?n1, es) = (Inl (Value e2), (?n2, es @ effectsOf f ?n1))"
      by (simp add: traced_run)
    from retryLoop_retries [where operation = "traced f" and w = "(?n1, es)" and a = 2,
        OF le2 ne2 this]
    have "retryLoop (traced f) ?m 2 (?n1, es) =
        Option.bind (retryLoop (traced f) ?m 3 (?n2, es @ effectsOf f ?n1))
          (\<lambda>(r, w'', evs).
             Some (r, w'', Invoked 2 # Warned 2 e2 (Finite 4000) # Slept (Finite 4000) # evs))"
      by (simp only: inc backoffDelay_2)
    with Inl show ?thesis by (simp add: third)
  qed
  have first: "retryLoop (traced f) ?m 1 (n, []) =
      Some (case fst (f n) of
          Inr v \<Rightarrow> (Inr v, (?n1, effectsOf f n), [Invoked 1])
        | Inl e1 \<Rightarrow>
            (case fst (f ?n1) of
               Inr v \<Rightarrow>
                 (Inr v, (?n2, effectsOf f n @ effectsOf f ?n1),
                  [Invoked 1, Warned 1 e1 (Finite 2000), Slept (Finite 2000), Invoked 2])
             | Inl e2 \<Rightarrow>
                 (case fst (f ?n2) of Inl e3 \<Rightarrow> Inl (Thrown (Value e3)) | Inr v \<Rightarrow> Inr v,
                  (networkAfter f ?n2, effectsOf f n @ effectsOf f ?n1 @ effectsOf f ?n2),
                  [Invoked 1, Warned 1 e1 (Finite 2000), Slept (Finite 2000),
                   Invoked 2, Warned 2 e2 (Finite 4000), Slept (Finite 4000), Invoked 3])))"
  proof (cases "fst (f n)")
    case (Inr v)
    then have "traced f (n, []) = (Inr v, (?n1, effectsOf f n))" by (simp add: traced_run)
    from retryLoop_returns [where operation = "traced f" and w = "(n, [])" and a = 1, OF le1 this]
      Inr
    show ?thesis by simp
  next
    case (Inl e1)
    then have "traced f (n, []) = (Inl (Value e1), (?n1, effectsOf f n))"
      by (simp add: traced_run)
    from retryLoop_retries [where operation = "traced f" and w = "(n, [])" and a = 1,
        OF le1 ne1 this]
    have "retryLoop (traced f) ?m 1 (n, []) =
        Option.bind (retryLoop (traced f) ?m 2 (?n1, effectsOf f n))
          (\<lambda>(r, w'', evs).
             Some (r, w'', Invoked 1 # Warned 1 e1 (Finite 2000) # Slept (Finite 2000) # evs))"
      by (simp only: inc backoffDelay_1)
    with Inl show ?thesis by (cases "fst (f ?n1)") (simp_all add: second)
  qed
  then show ?thesis by (simp add: executeWithRetry_def)
qed

text \<open>A closure that starts by submitting a transaction has that submission as its first effect.\<close>

lemma await_executeTx_first:
  "\<exists>rest. effectsOf (await (executeTx cl t) g) n = Executed t # rest"
  by (auto simp: effectsOf_def await_def executeTx_def split: prod.splits sum.splits)

lemma createFile_closure_first:
  assumes "contents \<noteq> []"
  shows "\<exists>rest. effectsOf (createFile_closure cl fetch contents) n =
     Executed (FileCreateTransaction (Some (hd (splitChunks 6144 contents)))) # rest"
proof -
  have "chunkLoop 6144 0 contents \<noteq> []"
    using assms by (simp add: chunkLoop.simps [of 6144 0 contents])
  then show ?thesis
    using await_executeTx_first
    by (simp add: createFile_closure_def Let_def splitChunks_def setContents_def await_def
        resolve_def effectsOf_def)
qed

text \<open>With no contents the closure throws in line 385, before anything is sent.\<close>

lemma createFile_closure_empty:
  "createFile_closure cl fetch [] n = (Inl bufferFromUndefined, n, [])"
  by (simp add: createFile_closure_def chunkLoop.simps setContents_def await_def throw_def)

lemma createFile_empty_contents:
  "createFile cl fetch [] n =
     Some (Inl (Thrown (Value bufferFromUndefined)), (n, []),
           [Invoked 1, Warned 1 bufferFromUndefined (Finite 2000), Slept (Finite 2000),
            Invoked 2, Warned 2 bufferFromUndefined (Finite 4000), Slept (Finite 4000),
            Invoked 3])"
proof -
  have "fst (createFile_closure cl fetch [] m) = Inl bufferFromUndefined"
    "networkAfter (createFile_closure cl fetch []) m = m"
    "effectsOf (createFile_closure cl fetch []) m = []" for m
    by (simp_all add: createFile_closure_empty networkAfter_def effectsOf_def)
  then show ?thesis by (simp add: createFile_def executeWithRetry_three_attempts)
qed

lemma deployLargeContract_closure_first:
  "\<exists>rest. effectsOf (deployLargeContract_closure cl fetch bytecode gas) n =
     Executed (FileCreateTransaction (Some (hd (deployChunks 4096 bytecode)))) # rest"
  unfolding deployLargeContract_closure_def Let_def deployChunks_def list.sel
  by (rule await_executeTx_first)

lemmas step_defs = await_def executeTx_def receiptOf_def nonNull_def console_def resolve_def
  throw_def computed_def monitored_def traced_def setContents_def

lemmas example_defs = flakyClient_def busyClient_def confirmingMirror_def hexDigit_def
  monitorTransaction_def monitorLoop.simps transactionUrl_def mirrorNodeUrl_def

lemmas retry_eval = executeWithRetry_def retryLoop.simps increment_def Let_def backoffDelay_values

lemma chunks_6145: "chunkLoop 6144 0 (replicate 6145 (7 :: byte)) = [replicate 6144 7, [7]]"
  by (simp add: chunkLoop.simps slice_def)

lemma chunks_4097: "chunkLoop 4096 4096 (replicate 4097 (7 :: byte)) = [[7]]"
  by (simp add: chunkLoop.simps slice_def)

text \<open>
  On the second example network, \<^verbatim>\<open>createFile\<close> with 6145 bytes: in the first two runs of
  the closure the create call succeeds and the append of chunk 1 is rejected; the third
  run goes through.
\<close>

lemma createFile_closure_busy_0:
  "createFile_closure busyClient confirmingMirror (replicate 6145 7) 0 =
     (Inl (Error ''BUSY''), 2,
      [Executed (FileCreateTransaction (Some (replicate 6144 7))),
       ReceiptRequested ''0.0.2@0'', ConsoleLog (checkMark @ ''File created: 0.0.100''),
       Executed (FileAppendTransaction ''0.0.100'' [7])])"
  by (simp add: createFile_closure_def chunks_6145 step_defs example_defs)

lemma createFile_closure_busy_2:
  "createFile_closure busyClient confirmingMirror (replicate 6145 7) 2 =
     (Inl (Error ''BUSY''), 4,
      [Executed (FileCreateTransaction (Some (replicate 6144 7))),
       ReceiptRequested ''0.0.2@2'', ConsoleLog (checkMark @ ''File created: 0.0.102''),
       Executed (FileAppendTransaction ''0.0.102'' [7])])"
  by (simp add: createFile_closure_def chunks_6145 step_defs example_defs)

lemma createFile_closure_busy_4:
  "createFile_closure busyClient confirmingMirror (replicate 6145 7) 4 =
     (Inr (FileOperationResult True ''0.0.104'' ''0.0.2@4''
             ''https://hashscan.io/mainnet/file/0.0.104''), 6,
      [Executed (FileCreateTransaction (Some (replicate 6144 7))),
       ReceiptRequested ''0.0.2@4'', ConsoleLog (checkMark @ ''File created: 0.0.104''),
       Executed (FileAppendTransaction ''0.0.104'' [7]),
       ConsoleLog ''Stored file metadata:'',
       Fetched ''https://mainnet-public.mirrornode.hedera.com/api/v1/transactions/0.0.2@4'',
       ConsoleLog ''Transaction confirmed:''])"
  by (simp add: createFile_closure_def chunks_6145 step_defs example_defs)

lemma deployLargeContract_closure_busy_0:
  "deployLargeContract_closure busyClient confirmingMirror (replicate 4097 7) 200000 0 =
     (Inl (Error ''BUSY''), 2,
      [Executed (FileCreateTransaction (Some (replicate 4096 7))),
       ReceiptRequested ''0.0.2@0'', ConsoleLog ''File created for large contract: 0.0.100'',
       Executed (FileAppendTransaction ''0.0.100'' [7])])"
  by (simp add: deployLargeContract_closure_def chunks_4097 slice_def step_defs example_defs)

lemma deployLargeContract_closure_busy_2:
  "deployLargeContract_closure busyClient confirmingMirror (replicate 4097 7) 200000 2 =
     (Inl (Error ''BUSY''), 4,
      [Executed (FileCreateTransaction (Some (replicate 4096 7))),
       ReceiptRequested ''0.0.2@2'', ConsoleLog ''File created for large contract: 0.0.102'',
       Executed (FileAppendTransaction ''0.0.102'' [7])])"
  by (simp add: deployLargeContract_closure_def chunks_4097 slice_def step_defs example_defs)

text \<open>
  Claim C1, as the code has it. In \<^verbatim>\<open>createFile\<close> and in \<^verbatim>\<open>deployLargeContract\<close> the
  whole session (the create call, every append and the steps after them) is one closure
  given to a single \<open>executeWithRetry\<close> with three attempts. When the first attempt fails,
  whichever call failed, the create or the append of any chunk, nothing is retried on its
  own: the closure is run again from its beginning, so the effects of the first attempt,
  which start with the create call carrying chunk 0, are followed by a new create call
  carrying chunk 0. When the second attempt fails too, the same happens once more, and
  the third attempt is the last. For \<^verbatim>\<open>createFile\<close> this is stated for contents that are
  not empty, the only ones for which there is a create call.
\<close>

theorem upload_retries_whole_session:
  "(contents \<noteq> [] \<longrightarrow>
      (\<exists>rest. effectsOf (createFile_closure cl fetch contents) n =
         Executed (FileCreateTransaction (Some (hd (splitChunks 6144 contents)))) # rest))
   \<and> (contents \<noteq> [] \<and> fst (createFile_closure cl fetch contents n) = Inl errA \<longrightarrow>
      (\<exists>r n' rest events. createFile cl fetch contents n =
         Some (r, (n', effectsOf (createFile_closure cl fetch contents) n
                       @ Executed (FileCreateTransaction (Some (hd (splitChunks 6144 contents))))
                       # rest), events)))
   \<and> (contents \<noteq> [] \<and> fst (createFile_closure cl fetch contents n) = Inl errA
        \<and> fst (createFile_closure cl fetch contents
                 (networkAfter (createFile_closure cl fetch contents) n)) = Inl errB \<longrightarrow>
      (\<exists>r n' rest events. createFile cl fetch contents n =
         Some (r, (n', effectsOf (createFile_closure cl fetch contents) n
                       @ effectsOf (createFile_closure cl fetch contents)
                           (networkAfter (createFile_closure cl fetch contents) n)
                       @ Executed (FileCreateTransaction (Some (hd (splitChunks 6144 contents))))
                       # rest), events)
         \<and> invocations events = 3))
   \<and> (\<exists>rest. effectsOf (deployLargeContract_closure cl fetch bytecode gas) n =
         Executed (FileCreateTransaction (Some (hd (deployChunks 4096 bytecode)))) # rest)
   \<and> (fst (deployLargeContract_closure cl fetch bytecode gas n) = Inl errA' \<longrightarrow>
      (\<exists>r n' rest events. deployLargeContract cl fetch bytecode gas n =
         Some (r, (n', effectsOf (deployLargeContract_closure cl fetch bytecode gas) n
                       @ Executed (FileCreateTransaction (Some (hd (deployChunks 4096 bytecode))))
                       # rest), events)))
   \<and> (fst (deployLargeContract_closure cl fetch bytecode gas n) = Inl errA'
        \<and> fst (deployLargeContract_closure cl fetch bytecode gas
                 (networkAfter (deployLargeContract_closure cl fetch bytecode gas) n)) = Inl errB' \<longrightarrow>
      (\<exists>r n' rest events. deployLargeContract cl fetch bytecode gas n =
         Some (r, (n', effectsOf (deployLargeContract_closure cl fetch bytecode gas) n
                       @ effectsOf (deployLargeContract_closure cl fetch bytecode gas)
                           (networkAfter (deployLargeContract_closure cl fetch bytecode gas) n)
                       @ Executed (FileCreateTransaction (Some (hd (deployChunks 4096 bytecode))))
                       # rest), events)
         \<and> invocations events = 3))"
proof (intro conjI impI)
  assume "contents \<noteq> []"
  then show "\<exists>rest. effectsOf (createFile_closure cl fetch contents) n =
      Executed (FileCreateTransaction (Some (hd (splitChunks 6144 contents)))) # rest"
    by (rule createFile_closure_first)
next
  let ?f = "createFile_closure cl fetch contents"
  let ?c = "Executed (FileCreateTransaction (Some (hd (splitChunks 6144 contents))))"
  assume "contents \<noteq> [] \<and> fst (?f n) = Inl errA"
  then have ne: "contents \<noteq> []" and f1: "fst (?f n) = Inl errA" by simp_all
  from createFile_closure_first [OF ne, of cl fetch "networkAfter ?f n"] obtain rest2 where
    r2: "effectsOf ?f (networkAfter ?f n) = ?c # rest2" by blast
  show "\<exists>r n' rest events. createFile cl fetch contents n =
      Some (r, (n', effectsOf ?f n @ ?c # rest), events)"
  proof (cases "fst (?f (networkAfter ?f n))")
    case (Inr v)
    with f1 r2 show ?thesis by (simp add: createFile_def executeWithRetry_three_attempts)
  next
    case (Inl errB)
    with f1 r2 show ?thesis by (simp add: createFile_def executeWithRetry_three_attempts)
  qed
next
  let ?f = "createFile_closure cl fetch contents"
  let ?c = "Executed (FileCreateTransaction (Some (hd (splitChunks 6144 contents))))"
  assume "contents \<noteq> [] \<and> fst (?f n) = Inl errA \<and> fst (?f (networkAfter ?f n)) = Inl errB"
  then have ne: "contents \<noteq> []" and f1: "fst (?f n) = Inl errA"
    and f2: "fst (?f (networkAfter ?f n)) = Inl errB" by simp_all
  from createFile_closure_first [OF ne, of cl fetch "networkAfter ?f (networkAfter ?f n)"]
  obtain rest3 where r3: "effectsOf ?f (networkAfter ?f (networkAfter ?f n)) = ?c # rest3"
    by blast
  with f1 f2 show "\<exists>r n' rest events. createFile cl fetch contents n =
      Some (r, (n', effectsOf ?f n @ effectsOf ?f (networkAfter ?f n) @ ?c # rest), events)
      \<and> invocations events = 3"
    by (simp add: createFile_def executeWithRetry_three_attempts invocations_def)
next
  show "\<exists>rest. effectsOf (deployLargeContract_closure cl fetch bytecode gas) n =
      Executed (FileCreateTransaction (Some (hd (deployChunks 4096 bytecode)))) # rest"
    by (rule deployLargeContract_closure_first)
next
  let ?f = "deployLargeContract_closure cl fetch bytecode gas"
  let ?c = "Executed (FileCreateTransaction (Some (hd (deployChunks 4096 bytecode))))"
  assume f1: "fst (?f n) = Inl errA'"
  from deployLargeContract_closure_first [of cl fetch bytecode gas "networkAfter ?f n"]
  obtain rest2 where r2: "effectsOf ?f (networkAfter ?f n) = ?c # rest2" by blast
  show "\<exists>r n' rest events. deployLargeContract cl fetch bytecode gas n =
      Some (r, (n', effectsOf ?f n @ ?c # rest), events)"
  proof (cases "fst (?f (networkAfter ?f n))")
    case (Inr v)
    with f1 r2 show ?thesis by (simp add: deployLargeContract_def executeWithRetry_three_attempts)
  next
    case (Inl errB)
    with f1 r2 show ?thesis by (simp add: deployLargeContract_def executeWithRetry_three_attempts)
  qed
next
  let ?f = "deployLargeContract_closure cl fetch bytecode gas"
  let ?c = "Executed (FileCreateTransaction (Some (hd (deployChunks 4096 bytecode))))"
  assume "fst (?f n) = Inl errA' \<and> fst (?f (networkAfter ?f n)) = Inl errB'"
  then have f1: "fst (?f n) = Inl errA'" and f2: "fst (?f (networkAfter ?f n)) = Inl errB'"
    by simp_all
  from deployLargeContract_closure_first
    [of cl fetch bytecode gas "networkAfter ?f (networkAfter ?f n)"]
  obtain rest3 where r3: "effectsOf ?f (networkAfter ?f (networkAfter ?f n)) = ?c # rest3"
    by blast
  with f1 f2 show "\<exists>r n' rest events. deployLargeContract cl fetch bytecode gas n =
      Some (r, (n', effectsOf ?f n @ effectsOf ?f (networkAfter ?f n) @ ?c # rest), events)
      \<and> invocations events = 3"
    by (simp add: deployLargeContract_def executeWithRetry_three_attempts invocations_def)
qed

text \<open>
  On the second example network the append of chunk 1 is rejected in the first and in the
  second attempt of both methods: the effects of the whole call go on with a second and
  then a third create call for chunk 0.
\<close>

theorem upload_retries_whole_session_witness:
  "replicate 6145 (7 :: byte) \<noteq> []
   \<and> fst (createFile_closure busyClient confirmingMirror (replicate 6145 7) 0) = Inl (Error ''BUSY'')
   \<and> fst (createFile_closure busyClient confirmingMirror (replicate 6145 7) 2) = Inl (Error ''BUSY'')
   \<and> (\<exists>r n' rest events. createFile busyClient confirmingMirror (replicate 6145 7) 0 =
         Some (r, (n',
           [Executed (FileCreateTransaction (Some (replicate 6144 7))),
            ReceiptRequested ''0.0.2@0'', ConsoleLog (checkMark @ ''File created: 0.0.100''),
            Executed (FileAppendTransaction ''0.0.100'' [7]),
            Executed (FileCreateTransaction (Some (replicate 6144 7))),
            ReceiptRequested ''0.0.2@2'', ConsoleLog (checkMark @ ''File created: 0.0.102''),
            Executed (FileAppendTransaction ''0.0.102'' [7]),
            Executed (FileCreateTransaction (Some (replicate 6144 7)))] @ rest), events)
         \<and> invocations events = 3)
   \<and> fst (deployLargeContract_closure busyClient confirmingMirror (replicate 4097 7) 200000 0) =
         Inl (Error ''BUSY'')
   \<and> fst (deployLargeContract_closure busyClient confirmingMirror (replicate 4097 7) 200000 2) =
         Inl (Error ''BUSY'')
   \<and> (\<exists>r n' rest events.
         deployLargeContract busyClient confirmingMirror (replicate 4097 7) 200000 0 =
         Some (r, (n',
           [Executed (FileCreateTransaction (Some (replicate 4096 7))),
            ReceiptRequested ''0.0.2@0'', ConsoleLog ''File created for large contract: 0.0.100'',
            Executed (FileAppendTransaction ''0.0.100'' [7]),
            Executed (FileCreateTransaction (Some (replicate 4096 7))),
            ReceiptRequested ''0.0.2@2'', ConsoleLog ''File created for large contract: 0.0.102'',
            Executed (FileAppendTransaction ''0.0.102'' [7]),
            Executed (FileCreateTransaction (Some (replicate 4096 7)))] @ rest), events)
         \<and> invocations events = 3)"
proof -
  let ?up = "createFile_closure busyClient confirmingMirror (replicate 6145 7)"
  let ?dp = "deployLargeContract_closure busyClient confirmingMirror (replicate 4097 7) 200000"
  have s: "hd (splitChunks 6144 (replicate 6145 (7 :: byte))) = replicate 6144 7"
    by (simp add: splitChunks_def chunks_6145)
  have d: "hd (deployChunks 4096 (replicate 4097 (7 :: byte))) = replicate 4096 7"
    by (simp add: deployChunks_def slice_def)
  have ne: "replicate 6145 (7 :: byte) \<noteq> []" by simp
  have u1: "fst (?up 0) = Inl (Error ''BUSY'')" and nu: "networkAfter ?up 0 = 2"
    and eu1: "effectsOf ?up 0 =
      [Executed (FileCreateTransaction (Some (replicate 6144 7))),
       ReceiptRequested ''0.0.2@0'', ConsoleLog (checkMark @ ''File created: 0.0.100''),
       Executed (FileAppendTransaction ''0.0.100'' [7])]"
    by (simp_all add: createFile_closure_busy_0 networkAfter_def effectsOf_def)
  have u2: "fst (?up 2) = Inl (Error ''BUSY'')"
    and eu2: "effectsOf ?up 2 =
      [Executed (FileCreateTransaction (Some (replicate 6144 7))),
       ReceiptRequested ''0.0.2@2'', ConsoleLog (checkMark @ ''File created: 0.0.102''),
       Executed (FileAppendTransaction ''0.0.102'' [7])]"
    by (simp_all add: createFile_closure_busy_2 effectsOf_def)
  have d1: "fst (?dp 0) = Inl (Error ''BUSY'')" and nd: "networkAfter ?dp 0 = 2"
    and ed1: "effectsOf ?dp 0 =
      [Executed (FileCreateTransaction (Some (replicate 4096 7))),
       ReceiptRequested ''0.0.2@0'', ConsoleLog ''File created for large contract: 0.0.100'',
       Executed (FileAppendTransaction ''0.0.100'' [7])]"
    by (simp_all add: deployLargeContract_closure_busy_0 networkAfter_def effectsOf_def)
  have d2: "fst (?dp 2) = Inl (Error ''BUSY'')"
    and ed2: "effectsOf ?dp 2 =
      [Executed (FileCreateTransaction (Some (replicate 4096 7))),
       ReceiptRequested ''0.0.2@2'', ConsoleLog ''File created for large contract: 0.0.102'',
       Executed (FileAppendTransaction ''0.0.102'' [7])]"
    by (simp_all add: deployLargeContract_closure_busy_2 effectsOf_def)
  note T = upload_retries_whole_session [where cl = busyClient and fetch = confirmingMirror
      and contents = "replicate 6145 7" and n = 0 and errA = "Error ''BUSY''"
      and errB = "Error ''BUSY''" and bytecode = "replicate 4097 7" and gas = 200000
      and errA' = "Error ''BUSY''" and errB' = "Error ''BUSY''"]
  have hu: "replicate 6145 (7 :: byte) \<noteq> [] \<and> fst (?up 0) = Inl (Error ''BUSY'')
      \<and> fst (?up (networkAfter ?up 0)) = Inl (Error ''BUSY'')"
    using u1 u2 by (simp add: nu)
  from T [THEN conjunct2, THEN conjunct2, THEN conjunct1, THEN mp, OF hu]
  have "\<exists>r n' rest events.
      createFile busyClient confirmingMirror (replicate 6145 7) 0 =
        Some (r, (n', effectsOf ?up 0 @ effectsOf ?up (networkAfter ?up 0)
                @ Executed (FileCreateTransaction
                    (Some (hd (splitChunks 6144 (replicate 6145 (7 :: byte)))))) # rest), events)
      \<and> invocations events = 3" .
  then have a: "\<exists>r n' rest events. createFile busyClient confirmingMirror (replicate 6145 7) 0 =
      Some (r, (n',
        [Executed (FileCreateTransaction (Some (replicate 6144 7))),
         ReceiptRequested ''0.0.2@0'', ConsoleLog (checkMark @ ''File created: 0.0.100''),
         Executed (FileAppendTransaction ''0.0.100'' [7]),
         Executed (FileCreateTransaction (Some (replicate 6144 7))),
         ReceiptRequested ''0.0.2@2'', ConsoleLog (checkMark @ ''File created: 0.0.102''),
         Executed (FileAppendTransaction ''0.0.102'' [7]),
         Executed (FileCreateTransaction (Some (replicate 6144 7)))] @ rest), events)
      \<and> invocations events = 3"
    by (simp add: nu eu1 eu2 s)
  have hdep: "fst (?dp 0) = Inl (Error ''BUSY'')
      \<and> fst (?dp (networkAfter ?dp 0)) = Inl (Error ''BUSY'')"
    using d1 d2 by (simp add: nd)
  from T [THEN conjunct2, THEN conjunct2, THEN conjunct2, THEN conjunct2, THEN conjunct2,
      THEN mp, OF hdep]
  have "\<exists>r n' rest events.
      deployLargeContract busyClient confirmingMirror (replicate 4097 7) 200000 0 =
        Some (r, (n', effectsOf ?dp 0 @ effectsOf ?dp (networkAfter ?dp 0)
                @ Executed (FileCreateTransaction
                    (Some (hd (deployChunks 4096 (replicate 4097 (7 :: byte)))))) # rest), events)
      \<and> invocations events = 3" .
  then have b: "\<exists>r n' rest events.
      deployLargeContract busyClient confirmingMirror (replicate 4097 7) 200000 0 =
      Some (r, (n',
        [Executed (FileCreateTransaction (Some (replicate 4096 7))),
         ReceiptRequested ''0.0.2@0'', ConsoleLog ''File created for large contract: 0.0.100'',
         Executed (FileAppendTransaction ''0.0.100'' [7]),
         Executed (FileCreateTransaction (Some (replicate 4096 7))),
         ReceiptRequested ''0.0.2@2'', ConsoleLog ''File created for large contract: 0.0.102'',
         Executed (FileAppendTransaction ''0.0.102'' [7]),
         Executed (FileCreateTransaction (Some (replicate 4096 7)))] @ rest), events)
      \<and> invocations events = 3"
    by (simp add: nd ed1 ed2 d)
  from ne u1 u2 a d1 d2 b show ?thesis by (intro conjI)
qed

text \<open>
  Claim C1 as stated fails on the first example network. The append of chunk 1 is rejected
  once. It is not retried on its own: after the wait the closure runs again, chunk 0 is
  submitted a second time, in a new create call that makes a second file, and chunk 1 is
  appended to that file.
\<close>

theorem createFile_resubmits_applied_chunk:
  "createFile flakyClient confirmingMirror (replicate 6145 7) 0 =
     Some (Inr (FileOperationResult True ''0.0.102'' ''0.0.2@2''
                  ''https://hashscan.io/mainnet/file/0.0.102''),
      (4,
       [Executed (FileCreateTransaction (Some (replicate 6144 7))),
        ReceiptRequested ''0.0.2@0'', ConsoleLog (checkMark @ ''File created: 0.0.100''),
        Executed (FileAppendTransaction ''0.0.100'' [7]),
        Executed (FileCreateTransaction (Some (replicate 6144 7))),
        ReceiptRequested ''0.0.2@2'', ConsoleLog (checkMark @ ''File created: 0.0.102''),
        Executed (FileAppendTransaction ''0.0.102'' [7]),
        ConsoleLog ''Stored file metadata:'',
        Fetched ''https://mainnet-public.mirrornode.hedera.com/api/v1/transactions/0.0.2@2'',
        ConsoleLog ''Transaction confirmed:'']),
      [Invoked 1, Warned 1 (Error ''BUSY'') (Finite 2000), Slept (Finite 2000), Invoked 2])"
  by (simp add: createFile_def retry_eval createFile_closure_def chunks_6145 step_defs example_defs)

section \<open>Properties of submitMessage\<close>

text \<open>An operation that throws the same error from every world, leaving the world as it was.\<close>

lemma executeWithRetry_constant_failure:
  assumes "\<And>w. operation w = (Inl (Value e), w)"
  shows "executeWithRetry operation (Finite 3) w =
           Some (Inl (Thrown (Value e)), w,
            [Invoked 1, Warned 1 e (Finite 2000), Slept (Finite 2000),
             Invoked 2, Warned 2 e (Finite 4000), Slept (Finite 4000), Invoked 3])"
  by (simp add: executeWithRetry_def retryLoop.simps increment_def Let_def backoffDelay_values assms)

text \<open>
  With encryption asked for and no key in the environment, the closure throws before it
  reaches the network: the error of \<^verbatim>\<open>TopicId.fromString\<close> or of \<^verbatim>\<open>JSON.stringify\<close> when
  one of them throws, else the error of line 94.
\<close>

lemma submitMessage_closure_missing_key:
  assumes "missing (HCS_ENCRYPTION_KEY environment)"
  shows "submitMessage_closure cl fetch lib environment topicId message True n =
           (Inl (case topicFromString lib topicId of
                   Inl e \<Rightarrow> e
                 | Inr topic \<Rightarrow>
                     (case stringify message of
                        Inl e \<Rightarrow> e
                      | Inr messageString \<Rightarrow> Error ''Missing HCS_ENCRYPTION_KEY in environment'')),
            n, [])"
  using assms
  by (simp add: submitMessage_closure_def await_def computed_def throw_def split: sum.splits)

text \<open>
  Claim C7, as the code has it. When \<^verbatim>\<open>submitMessage\<close> is called with \<open>encrypt\<close> true
  and no encryption key in the environment, then for every message and every topic id the
  call fails, nothing is sent to the network (the state of the network is untouched and
  there are no effects, so no plaintext goes out), and the closure has been run three times
  with waits of 2000 and 4000 ms. The error is that of line 94,
  \<^verbatim>\<open>Missing HCS_ENCRYPTION_KEY in environment\<close>, whenever the topic id is well formed and
  the message can be serialized; otherwise it is the error of \<^verbatim>\<open>TopicId.fromString\<close> or
  of \<^verbatim>\<open>JSON.stringify\<close>, which are called first.
\<close>

theorem submitMessage_without_key:
  assumes "missing (HCS_ENCRYPTION_KEY environment)"
  shows "\<exists>events. submitMessage cl fetch lib environment topicId message True n =
           Some (Inl (Thrown (Value (case topicFromString lib topicId of
                                       Inl e \<Rightarrow> e
                                     | Inr topic \<Rightarrow>
                                         (case stringify message of
                                            Inl e \<Rightarrow> e
                                          | Inr messageString \<Rightarrow>
                                              Error ''Missing HCS_ENCRYPTION_KEY in environment'')))),
                 (n, []), events)
    \<and> invocations events = 3
    \<and> delays events = [Finite 2000, Finite 4000]
    \<and> (\<not> isl (topicFromString lib topicId) \<and> \<not> isl (stringify message) \<longrightarrow>
          submitMessage cl fetch lib environment topicId message True n =
            Some (Inl (Thrown (Value (Error ''Missing HCS_ENCRYPTION_KEY in environment''))),
                  (n, []), events))"
proof -
  let ?e = "case topicFromString lib topicId of
              Inl e \<Rightarrow> e
            | Inr topic \<Rightarrow>
                (case stringify message of
                   Inl e \<Rightarrow> e
                 | Inr messageString \<Rightarrow> Error ''Missing HCS_ENCRYPTION_KEY in environment'')"
  let ?op = "traced (submitMessage_closure cl fetch lib environment topicId message True)"
  let ?events = "[Invoked 1, Warned 1 ?e (Finite 2000), Slept (Finite 2000),
      Invoked 2, Warned 2 ?e (Finite 4000), Slept (Finite 4000), Invoked 3]"
  have "?op w = (Inl (Value ?e), w)" for w
    by (simp add: traced_def submitMessage_closure_missing_key [OF assms])
  then have r: "submitMessage cl fetch lib environment topicId message True n =
      Some (Inl (Thrown (Value ?e)), (n, []), ?events)"
    unfolding submitMessage_def by (rule executeWithRetry_constant_failure)
  have "?e = Error ''Missing HCS_ENCRYPTION_KEY in environment''"
    if "\<not> isl (topicFromString lib topicId)" "\<not> isl (stringify message)"
    using that by (cases "topicFromString lib topicId"; cases "stringify message") simp_all
  with r have "submitMessage cl fetch lib environment topicId message True n =
        Some (Inl (Thrown (Value ?e)), (n, []), ?events)
      \<and> invocations ?events = 3
      \<and> delays ?events = [Finite 2000, Finite 4000]
      \<and> (\<not> isl (topicFromString lib topicId) \<and> \<not> isl (stringify message) \<longrightarrow>
            submitMessage cl fetch lib environment topicId message True n =
              Some (Inl (Thrown (Value (Error ''Missing HCS_ENCRYPTION_KEY in environment''))),
                    (n, []), ?events))"
    by (simp add: invocations_def)
  then show ?thesis by (rule exI)
qed

text \<open>
  A compliance entry submitted for encryption with no key set: the missing-key error, and
  nothing sent.
\<close>

theorem submitMessage_without_key_witness:
  "missing (HCS_ENCRYPTION_KEY \<lparr>HCS_ENCRYPTION_KEY = None\<rparr>)
   \<and> (\<exists>events. submitMessage flakyClient confirmingMirror exampleNode \<lparr>HCS_ENCRYPTION_KEY = None\<rparr>
            ''0.0.5005'' (Json ''{type:COMPLIANCE_EVENT}'') True 0 =
          Some (Inl (Thrown (Value (Error ''Missing HCS_ENCRYPTION_KEY in environment''))),
                (0, []), events)
        \<and> invocations events = 3
        \<and> delays events = [Finite 2000, Finite 4000])"
proof -
  have h: "missing (HCS_ENCRYPTION_KEY \<lparr>HCS_ENCRYPTION_KEY = None\<rparr>)"
    by (simp add: missing_def)
  have t: "topicFromString exampleNode ''0.0.5005'' = Inr ''0.0.5005''"
    by (simp add: exampleNode_def)
  from submitMessage_without_key [OF h, of flakyClient confirmingMirror exampleNode
      "''0.0.5005''" "Json ''{type:COMPLIANCE_EVENT}''" 0]
  obtain events where e:
    "submitMessage flakyClient confirmingMirror exampleNode \<lparr>HCS_ENCRYPTION_KEY = None\<rparr>
       ''0.0.5005'' (Json ''{type:COMPLIANCE_EVENT}'') True 0 =
     Some (Inl (Thrown (Value (case topicFromString exampleNode ''0.0.5005'' of
                                 Inl e \<Rightarrow> e
                               | Inr topic \<Rightarrow>
                                   (case stringify (Json ''{type:COMPLIANCE_EVENT}'') of
                                      Inl e \<Rightarrow> e
                                    | Inr messageString \<Rightarrow>
                                        Error ''Missing HCS_ENCRYPTION_KEY in environment'')))),
           (0, []), events)"
    "invocations events = 3" "delays events = [Finite 2000, Finite 4000]"
    by blast
  from e(1) have "submitMessage flakyClient confirmingMirror exampleNode
       \<lparr>HCS_ENCRYPTION_KEY = None\<rparr> ''0.0.5005'' (Json ''{type:COMPLIANCE_EVENT}'') True 0 =
     Some (Inl (Thrown (Value (Error ''Missing HCS_ENCRYPTION_KEY in environment''))),
           (0, []), events)"
    by (simp add: t)
  with e(2,3) h show ?thesis by blast
qed

text \<open>
  Claim C7 as stated has the missing-key error for every message. A message that
  \<^verbatim>\<open>JSON.stringify\<close> cannot serialize (here a \<^verbatim>\<open>BigInt\<close>) makes line 90 throw before the
  key is looked at, and that error is the one the caller gets.
\<close>

theorem submitMessage_unserializable_message:
  "map_option fst
     (submitMessage flakyClient confirmingMirror exampleNode \<lparr>HCS_ENCRYPTION_KEY = None\<rparr>
        ''0.0.5005'' (NotSerializable (Error ''Do not know how to serialize a BigInt'')) True 0) =
     Some (Inl (Thrown (Value (Error ''Do not know how to serialize a BigInt''))))
   \<and> map_option fst
       (submitMessage flakyClient confirmingMirror exampleNode \<lparr>HCS_ENCRYPTION_KEY = None\<rparr>
          ''0.0.5005'' (NotSerializable (Error ''Do not know how to serialize a BigInt'')) True 0) \<noteq>
     Some (Inl (Thrown (Value (Error ''Missing HCS_ENCRYPTION_KEY in environment''))))"
  by (simp add: submitMessage_def retry_eval submitMessage_closure_def step_defs exampleNode_def
      missing_def)

text \<open>
  For comparison, the same entry on the example network without encryption, and with
  encryption and a key: the message does reach the network, in the clear in the first case.
\<close>

lemma submitMessage_plain_example:
  "submitMessage flakyClient confirmingMirror exampleNode \<lparr>HCS_ENCRYPTION_KEY = None\<rparr>
     ''0.0.5005'' (Json ''{}'') False 0 =
   Some (Inr (MessageSubmitResult True ''0.0.5005'' ''0.0.2@0'' ''2025-01-01T00:00:00.000Z'' 1),
    (1, [Executed (TopicMessageSubmitTransaction ''0.0.5005'' [123, 125]),
         ReceiptRequested ''0.0.2@0'',
         ConsoleLog (checkMark @ ''Message submitted to topic 0.0.5005''),
         Fetched ''https://mainnet-public.mirrornode.hedera.com/api/v1/transactions/0.0.2@0'',
         ConsoleLog ''Transaction confirmed:'']),
    [Invoked 1])"
  by (simp add: submitMessage_def retry_eval submitMessage_closure_def step_defs clock_def
      exampleNode_def example_defs)

lemma toHex_zeros: "toHex (replicate 16 0) = ''00000000000000000000000000000000''"
proof -
  have "replicate 16 (0 :: byte) = [0, 0, 0, 0, 0, 0, 0, 0, 0, 0, 0, 0, 0, 0, 0, 0]"
    by (simp add: eval_nat_numeral)
  then show ?thesis by (simp add: toHex_def hexDigit_def)
qed

lemma submitMessage_encrypted_example:
  "map_option (fst \<circ> snd)
     (submitMessage flakyClient confirmingMirror exampleNode \<lparr>HCS_ENCRYPTION_KEY = Some ''00''\<rparr>
        ''0.0.5005'' (Json ''{}'') True 0) =
    Some (1, [Executed (TopicMessageSubmitTransaction ''0.0.5005''
           (map of_char ''00000000000000000000000000000000:00000000000000000000000000000000:{}'')),
         ReceiptRequested ''0.0.2@0'',
         ConsoleLog (checkMark @ ''Message submitted to topic 0.0.5005''),
         Fetched ''https://mainnet-public.mirrornode.hedera.com/api/v1/transactions/0.0.2@0'',
         ConsoleLog ''Transaction confirmed:''])"
  by (simp add: submitMessage_def retry_eval submitMessage_closure_def step_defs clock_def
      encryptMessage_def toHex_zeros missing_def exampleNode_def example_defs)

section \<open>Properties of hashUserId\<close>

subsection \<open>Evaluating SHA-256\<close>

text \<open>
  Taking the low 32 bits of a 32-bit word changes nothing; on a numeral it brings the
  numeral below \<open>2 ^ 32\<close>. The rounds are evaluated with every sum reduced in this way.
\<close>

lemma take_bit_u32: "take_bit 32 (w :: u32) = w"
  by (simp add: take_bit_word_eq_self)

lemma round256_reduced:
  "round256 (a, b, c, d, e, f, g, h) k w =
     (let t1 = take_bit 32 (h + bsig1 e + Ch e f g + k + w);
          t2 = take_bit 32 (bsig0 a + Maj a b c)
      in (take_bit 32 (t1 + t2), a, b, c, take_bit 32 (d + t1), e, f, g))"
  by (simp add: take_bit_u32)

lemma slide_reduced:
  "slide [w0, w1, w2, w3, w4, w5, w6, w7, w8, w9, w10, w11, w12, w13, w14, w15] =
     [w1, w2, w3, w4, w5, w6, w7, w8, w9, w10, w11, w12, w13, w14, w15,
      take_bit 32 (ssig1 w14 + w9 + ssig0 w1 + w0)]"
  by (simp add: take_bit_u32)

lemma addState_reduced:
  "addState (a, b, c, d, e, f, g, h) (a', b', c', d', e', f', g', h') =
     (take_bit 32 (a + a'), take_bit 32 (b + b'), take_bit 32 (c + c'), take_bit 32 (d + d'),
      take_bit 32 (e + e'), take_bit 32 (f + f'), take_bit 32 (g + g'), take_bit 32 (h + h'))"
  by (simp add: take_bit_u32)

lemmas sha256_eval = compress_def K256_def H256_def round256_reduced slide_reduced addState_reduced
  Let_def bsig0_def bsig1_def ssig0_def ssig1_def Ch_def Maj_def rotr_def

lemma replicate_numeral: "replicate (numeral k) x = x # replicate (pred_numeral k) x"
  by (simp add: numeral_eq_Suc)

lemma blocks_single:
  "blocks [w0, w1, w2, w3, w4, w5, w6, w7, w8, w9, w10, w11, w12, w13, w14, w15] =
     [[w0, w1, w2, w3, w4, w5, w6, w7, w8, w9, w10, w11, w12, w13, w14, w15]]"
  by (simp add: blocks.simps)

text \<open>The test vector of FIPS 180-4 for the message \<^verbatim>\<open>abc\<close>.\<close>

lemma words_abc:
  "wordsOf (pad (map of_char ''abc'')) = [0x61626380, 0, 0, 0, 0, 0, 0, 0, 0, 0, 0, 0, 0, 0, 0, 0x18]"
  by (simp add: pad_def lengthBytes_def replicate_numeral)

lemma compress_abc:
  "compress H256 [0x61626380, 0, 0, 0, 0, 0, 0, 0, 0, 0, 0, 0, 0, 0, 0, 0x18] =
     (0xba7816bf, 0x8f01cfea, 0x414140de, 0x5dae2223, 0xb00361a3, 0x96177a9c, 0xb410ff61, 0xf20015ad)"
  by (simp add: sha256_eval del: round256.simps slide.simps addState.simps)

lemma sha256_abc:
  "toHex (digest (sha256 (map of_char ''abc''))) =
     ''ba7816bf8f01cfea414140de5dae2223b00361a396177a9cb410ff61f20015ad''"
proof -
  have "sha256 (map of_char ''abc'') =
      (0xba7816bf, 0x8f01cfea, 0x414140de, 0x5dae2223, 0xb00361a3, 0x96177a9c, 0xb410ff61, 0xf20015ad)"
    unfolding sha256_def words_abc blocks_single by (simp add: compress_abc)
  then show ?thesis
    by (simp add: toHex_def hexDigit_def bytesOf_def)
qed

subsection \<open>The two identifiers of the specification\<close>

lemma words_user_42:
  "wordsOf (pad (map of_char ''user-42'')) =
     [0x75736572, 0x2d343280, 0, 0, 0, 0, 0, 0, 0, 0, 0, 0, 0, 0, 0, 0x38]"
  by (simp add: pad_def lengthBytes_def replicate_numeral)

lemma words_user_43:
  "wordsOf (pad (map of_char ''user-43'')) =
     [0x75736572, 0x2d343380, 0, 0, 0, 0, 0, 0, 0, 0, 0, 0, 0, 0, 0, 0x38]"
  by (simp add: pad_def lengthBytes_def replicate_numeral)

lemma compress_user_42:
  "compress H256 [0x75736572, 0x2d343280, 0, 0, 0, 0, 0, 0, 0, 0, 0, 0, 0, 0, 0, 0x38] =
     (0x6d894aa3, 0xee802549, 0xd7f340e7, 0xc1cf0d1c, 0x1cb14cd8, 0x4f768d92, 0xffaa6785, 0x337c4997)"
  by (simp add: sha256_eval del: round256.simps slide.simps addState.simps)

lemma compress_user_43:
  "compress H256 [0x75736572, 0x2d343380, 0, 0, 0, 0, 0, 0, 0, 0, 0, 0, 0, 0, 0, 0x38] =
     (0x85858a4c, 0x30f23472, 0xa74393aa, 0x9696f807, 0xe334049e, 0x2e86aa7b, 0x9b246e52, 0xd2a1b1e2)"
  by (simp add: sha256_eval del: round256.simps slide.simps addState.simps)

lemma hashUserId_user_42: "hashUserId ''user-42'' = ''6d894aa3ee802549''"
proof -
  have "sha256 (map of_char ''user-42'') =
      (0x6d894aa3, 0xee802549, 0xd7f340e7, 0xc1cf0d1c, 0x1cb14cd8, 0x4f768d92, 0xffaa6785, 0x337c4997)"
    unfolding sha256_def words_user_42 blocks_single by (simp add: compress_user_42)
  then show ?thesis
    by (simp add: hashUserId_def toHex_def hexDigit_def bytesOf_def)
qed

lemma hashUserId_user_43: "hashUserId ''user-43'' = ''85858a4c30f23472''"
proof -
  have "sha256 (map of_char ''user-43'') =
      (0x85858a4c, 0x30f23472, 0xa74393aa, 0x9696f807, 0xe334049e, 0x2e86aa7b, 0x9b246e52, 0xd2a1b1e2)"
    unfolding sha256_def words_user_43 blocks_single by (simp add: compress_user_43)
  then show ?thesis
    by (simp add: hashUserId_def toHex_def hexDigit_def bytesOf_def)
qed

subsection \<open>The shape of a pseudonym\<close>

lemma length_toHex: "length (toHex bs) = 2 * length bs"
  by (induction bs) (simp_all add: toHex_def)

lemma hexDigit_in_alphabet: "hexDigit k \<in> set ''0123456789abcdef''"
proof -
  have "k mod 16 < length ''0123456789abcdef''" by simp
  then show ?thesis unfolding hexDigit_def by (rule nth_mem)
qed

lemma set_toHex: "set (toHex bs) \<subseteq> set ''0123456789abcdef''"
proof (induction bs)
  case Nil
  then show ?case by (simp add: toHex_def)
next
  case (Cons b bs)
  have "toHex (b # bs) = hexDigit (unat b div 16) # hexDigit (unat b mod 16) # toHex bs"
    by (simp add: toHex_def)
  with Cons hexDigit_in_alphabet show ?case by simp
qed

lemma length_digest: "length (digest s) = 32"
  by (cases s rule: digest.cases) (simp add: bytesOf_def)

text \<open>
  Claim C8. \<open>hashUserId\<close> is the first 16 hexadecimal characters of the SHA-256 digest of
  the identifier. It is a function of the identifier alone, so equal identifiers have equal
  pseudonyms; every pseudonym has exactly 16 characters, all of them lowercase hexadecimal
  digits; and the pseudonyms of \<^verbatim>\<open>user-42\<close> and \<^verbatim>\<open>user-43\<close> differ.
\<close>

theorem hashUserId_pseudonym:
  "hashUserId userId = take 16 (toHex (digest (sha256 (map of_char userId))))
   \<and> (userId = userId' \<longrightarrow> hashUserId userId = hashUserId userId')
   \<and> length (hashUserId userId) = 16
   \<and> set (hashUserId userId) \<subseteq> set ''0123456789abcdef''
   \<and> hashUserId ''user-42'' = ''6d894aa3ee802549''
   \<and> hashUserId ''user-43'' = ''85858a4c30f23472''
   \<and> hashUserId ''user-42'' \<noteq> hashUserId ''user-43''"
proof -
  have l: "length (hashUserId userId) = 16"
    by (simp add: hashUserId_def length_toHex length_digest)
  have "set (hashUserId userId) \<subseteq> set (toHex (digest (sha256 (map of_char userId))))"
    unfolding hashUserId_def by (rule set_take_subset)
  also have "\<dots> \<subseteq> set ''0123456789abcdef''" by (rule set_toHex)
  finally have s: "set (hashUserId userId) \<subseteq> set ''0123456789abcdef''" .
  have d: "hashUserId ''user-42'' \<noteq> hashUserId ''user-43''"
    by (simp add: hashUserId_user_42 hashUserId_user_43)
  from l s d show ?thesis
    by (simp add: hashUserId_user_42 hashUserId_user_43) (simp add: hashUserId_def)
qed

theorem hashUserId_pseudonym_witness:
  "''user-42'' = ''user-42'' \<and> hashUserId ''user-42'' = hashUserId ''user-42''
   \<and> length (hashUserId ''user-42'') = 16"
proof -
  from hashUserId_pseudonym [of "''user-42''" "''user-42''"]
  have "length (hashUserId ''user-42'') = 16" by blast
  then show ?thesis by simp
qed

section \<open>Properties of calculateDailyCosts\<close>

subsection \<open>The unit costs\<close>

text \<open>The three unit costs as doubles (\<open>1152921504606846976\<close> is \<open>2\<^sup>6\<^sup>0\<close>, and so on).\<close>

lemma unit_cost_transfer: "toDouble (1 / 1000) = 1152921504606847 / 1152921504606846976"
  by (simp add: double_eval)

lemma unit_cost_message: "toDouble (1 / 10000) = 7378697629483821 / 73786976294838206464"
  by (simp add: double_eval)

lemma unit_cost_execution: "toDouble (1 / 20) = 3602879701896397 / 72057594037927936"
  by (simp add: double_eval)

subsection \<open>The accuracy of the total\<close>

text \<open>
  Intervals around an exact value \<open>v \<ge> 0\<close>, from \<open>v * lo\<close> to \<open>v * hi\<close>: how they go
  through a rounding, a product and a sum.
\<close>

lemma round_interval:
  assumes "0 \<le> v" and "0 \<le> lo" and "v * lo \<le> a" and "a \<le> v * hi"
  shows "v * (lo * (1 - 1 / 2 ^ 53)) \<le> toDouble a \<and> toDouble a \<le> v * (hi * (1 + 1 / 2 ^ 53))"
proof -
  have a: "0 \<le> a" using assms(1,2,3) by (meson mult_nonneg_nonneg order_trans)
  from toDouble_between [OF a]
  have t: "a * (1 - 1 / 2 ^ 53) \<le> toDouble a" "toDouble a \<le> a * (1 + 1 / 2 ^ 53)" by simp_all
  have "v * lo * (1 - 1 / 2 ^ 53) \<le> a * (1 - 1 / 2 ^ 53)"
    using assms(3) by (intro mult_right_mono) simp_all
  moreover have "a * (1 + 1 / 2 ^ 53) \<le> v * hi * (1 + 1 / 2 ^ 53)"
    using assms(4) by (intro mult_right_mono) simp_all
  ultimately show ?thesis using t by (simp only: mult.assoc) linarith
qed

lemma mult_interval:
  fixes a b :: rat
  assumes "0 \<le> c" and "0 \<le> u" and "0 \<le> l1" and "0 \<le> l2"
    and "c * l1 \<le> a" and "a \<le> c * h1" and "u * l2 \<le> b" and "b \<le> u * h2"
  shows "(c * u) * (l1 * l2) \<le> a * b \<and> a * b \<le> (c * u) * (h1 * h2)"
proof -
  have a: "0 \<le> a" using assms(1,3,5) by (meson mult_nonneg_nonneg order_trans)
  have b: "0 \<le> b" using assms(2,4,7) by (meson mult_nonneg_nonneg order_trans)
  have "(c * l1) * (u * l2) \<le> a * b"
  proof (rule mult_mono)
    show "c * l1 \<le> a" by (rule assms(5))
    show "u * l2 \<le> b" by (rule assms(7))
    show "0 \<le> a" by (rule a)
    show "0 \<le> u * l2" using assms(2,4) by (rule mult_nonneg_nonneg)
  qed
  moreover have "a * b \<le> (c * h1) * (u * h2)"
  proof (rule mult_mono)
    show "a \<le> c * h1" by (rule assms(6))
    show "b \<le> u * h2" by (rule assms(8))
    show "0 \<le> c * h1" using a assms(6) by (rule order_trans)
    show "0 \<le> b" by (rule b)
  qed
  ultimately show ?thesis by (simp add: mult_ac)
qed

lemma add_interval:
  fixes a b :: rat
  assumes "v * l \<le> a" and "a \<le> v * h" and "w * l \<le> b" and "b \<le> w * h"
  shows "(v + w) * l \<le> a + b \<and> a + b \<le> (v + w) * h"
  using assms by (simp add: algebra_simps)

lemma widen_interval:
  fixes a :: rat
  assumes "0 \<le> v" and "v * l \<le> a" and "a \<le> v * h" and "l' \<le> l" and "h \<le> h'"
  shows "v * l' \<le> a \<and> a \<le> v * h'"
proof -
  have "v * l' \<le> v * l" using assms(1,4) by (rule mult_left_mono [rotated])
  moreover have "v * h \<le> v * h'" using assms(1,5) by (rule mult_left_mono [rotated])
  ultimately show ?thesis using assms(2,3) by linarith
qed

text \<open>For non-negative counts the total is the exact sum up to five roundings.\<close>

lemma totalCost_accuracy:
  assumes "0 \<le> htsCount" and "0 \<le> hcsCount" and "0 \<le> hscsCount"
  shows "\<bar>totalCost (calculateDailyCosts (Some htsCount) (Some hcsCount) (Some hscsCount))
          - (of_int htsCount * (1 / 1000) + of_int hcsCount * (1 / 10000) + of_int hscsCount * (5 / 100))\<bar>
        \<le> (of_int htsCount * (1 / 1000) + of_int hcsCount * (1 / 10000) + of_int hscsCount * (5 / 100))
            / 2 ^ 50"
proof -
  define d :: rat where "d = 1 - 1 / 2 ^ 53"
  define u :: rat where "u = 1 + 1 / 2 ^ 53"
  have d: "0 \<le> d" "d \<le> 1" and u: "1 \<le> u" by (simp_all add: d_def u_def)
  have R: "v * (lo * d) \<le> toDouble a \<and> toDouble a \<le> v * (hi * u)"
    if "0 \<le> v" "0 \<le> lo" "v * lo \<le> a" "a \<le> v * hi" for v lo hi a
    using round_interval [OF that] by (simp add: d_def u_def)
  have product: "(c * p) * (d * d * d) \<le> mulDouble (toDouble c) (toDouble p)
      \<and> mulDouble (toDouble c) (toDouble p) \<le> (c * p) * (u * u * u)"
    if "0 \<le> c" "0 \<le> p" for c p
  proof -
    from R [of c 1 c 1] that have c: "c * d \<le> toDouble c" "toDouble c \<le> c * u" by simp_all
    from R [of p 1 p 1] that have p: "p * d \<le> toDouble p" "toDouble p \<le> p * u" by simp_all
    from mult_interval [OF that d(1) d(1) c p]
    have m: "(c * p) * (d * d) \<le> toDouble c * toDouble p"
      "toDouble c * toDouble p \<le> (c * p) * (u * u)" by simp_all
    have "0 \<le> c * p" "0 \<le> d * d" using that d by simp_all
    from R [OF this m] show ?thesis by (simp add: mulDouble_def mult.assoc)
  qed
  define e1 :: rat where "e1 = of_int htsCount * (1 / 1000)"
  define e2 :: rat where "e2 = of_int hcsCount * (1 / 10000)"
  define e3 :: rat where "e3 = of_int hscsCount * (5 / 100)"
  define p1 where "p1 = mulDouble (toDouble (of_int htsCount)) (toDouble (1 / 1000))"
  define p2 where "p2 = mulDouble (toDouble (of_int hcsCount)) (toDouble (1 / 10000))"
  define p3 where "p3 = mulDouble (toDouble (of_int hscsCount)) (toDouble (5 / 100))"
  have e: "0 \<le> e1" "0 \<le> e2" "0 \<le> e3" using assms by (simp_all add: e1_def e2_def e3_def)
  have b1: "e1 * (d * d * d) \<le> p1" "p1 \<le> e1 * (u * u * u)"
    using product [of "of_int htsCount" "1 / 1000"] assms(1) by (simp_all add: e1_def p1_def)
  have b2: "e2 * (d * d * d) \<le> p2" "p2 \<le> e2 * (u * u * u)"
    using product [of "of_int hcsCount" "1 / 10000"] assms(2) by (simp_all add: e2_def p2_def)
  have b3: "e3 * (d * d * d) \<le> p3" "p3 \<le> e3 * (u * u * u)"
    using product [of "of_int hscsCount" "5 / 100"] assms(3) by (simp_all add: e3_def p3_def)
  have ddd: "0 \<le> d * d * d" using d by simp
  from add_interval [OF b1 b2]
  have s: "(e1 + e2) * (d * d * d) \<le> p1 + p2" "p1 + p2 \<le> (e1 + e2) * (u * u * u)" by simp_all
  have "0 \<le> e1 + e2" using e by simp
  from R [OF this ddd s]
  have s1: "(e1 + e2) * (d * d * d * d) \<le> addDouble p1 p2"
    "addDouble p1 p2 \<le> (e1 + e2) * (u * u * u * u)"
    by (simp_all add: addDouble_def)
  have "d * d * d * d \<le> d * d * d"
    using mult_left_mono [OF d(2) ddd] by (simp add: mult_ac)
  moreover have "u * u * u \<le> u * u * u * u"
    using u mult_left_mono [of 1 u "u * u * u"] by (simp add: mult_ac)
  ultimately have b3': "e3 * (d * d * d * d) \<le> p3" "p3 \<le> e3 * (u * u * u * u)"
    using widen_interval [OF e(3) b3] by simp_all
  from add_interval [OF s1 b3']
  have t: "(e1 + e2 + e3) * (d * d * d * d) \<le> addDouble p1 p2 + p3"
    "addDouble p1 p2 + p3 \<le> (e1 + e2 + e3) * (u * u * u * u)" by simp_all
  have E: "0 \<le> e1 + e2 + e3" using e by simp
  have "0 \<le> d * d * d * d" using d by simp
  from R [OF E this t]
  have total: "(e1 + e2 + e3) * (d * d * d * d * d) \<le> addDouble (addDouble p1 p2) p3"
    "addDouble (addDouble p1 p2) p3 \<le> (e1 + e2 + e3) * (u * u * u * u * u)"
    by (simp_all add: addDouble_def)
  have lo: "1 - 1 / 2 ^ 50 \<le> d * d * d * d * d" by (simp add: d_def)
  have hi: "u * u * u * u * u \<le> 1 + 1 / 2 ^ 50" by (simp add: u_def)
  from widen_interval [OF E total lo hi]
  have "(e1 + e2 + e3) * (1 - 1 / 2 ^ 50) \<le> addDouble (addDouble p1 p2) p3"
    "addDouble (addDouble p1 p2) p3 \<le> (e1 + e2 + e3) * (1 + 1 / 2 ^ 50)" by simp_all
  moreover have "x * (1 - 1 / 2 ^ 50) = x - x / 2 ^ 50" "x * (1 + 1 / 2 ^ 50) = x + x / 2 ^ 50"
    for x :: rat
    by (simp_all add: right_diff_distrib distrib_left)
  ultimately have "(e1 + e2 + e3) - (e1 + e2 + e3) / 2 ^ 50 \<le> addDouble (addDouble p1 p2) p3"
    "addDouble (addDouble p1 p2) p3 \<le> (e1 + e2 + e3) + (e1 + e2 + e3) / 2 ^ 50"
    by (simp_all only:)
  then have "\<bar>addDouble (addDouble p1 p2) p3 - (e1 + e2 + e3)\<bar> \<le> (e1 + e2 + e3) / 2 ^ 50"
    by linarith
  moreover have "totalCost (calculateDailyCosts (Some htsCount) (Some hcsCount) (Some hscsCount)) =
      addDouble (addDouble p1 p2) p3"
    by (simp add: calculateDailyCosts_def Let_def p1_def p2_def p3_def)
  ultimately show ?thesis by (simp add: e1_def e2_def e3_def)
qed

subsection \<open>The daily total\<close>

lemma htsCost_example: "mulDouble (toDouble 10000) (toDouble (1 / 1000)) = 10"
  by (simp add: mulDouble_def unit_cost_transfer) (simp add: double_eval)

lemma hcsCost_example: "mulDouble (toDouble 5000) (toDouble (1 / 10000)) = 1 / 2"
  by (simp add: mulDouble_def unit_cost_message) (simp add: double_eval)

lemma hscsCost_example: "mulDouble (toDouble 500) (toDouble (1 / 20)) = 25"
  by (simp add: mulDouble_def unit_cost_execution) (simp add: double_eval)

lemma totalCost_example: "addDouble (addDouble 10 (1 / 2)) 25 = 71 / 2"
  by (simp add: addDouble_def) (simp add: double_eval)

text \<open>
  The sum is the one of JavaScript numbers, and need not be the exact one: for 7 transfers,
  3 messages and 1 execution the total is \<open>0.057300000000000004\<close>, not the double
  nearest to \<open>0.0573\<close>.
\<close>

lemma totalCost_rounding_example:
  "totalCost (calculateDailyCosts (Some 7) (Some 3) (Some 1)) = 4128900138373271 / 72057594037927936
   \<and> toDouble (573 / 10000) = 8257800276746541 / 144115188075855872"
proof -
  have p1: "mulDouble (toDouble 7) (toDouble (1 / 1000)) = 8070450532247929 / 1152921504606846976"
    by (simp add: mulDouble_def unit_cost_transfer) (simp add: double_eval)
  have p2: "mulDouble (toDouble 3) (toDouble (1 / 10000)) = 2767011611056433 / 9223372036854775808"
    by (simp add: mulDouble_def unit_cost_message) (simp add: double_eval)
  have p3: "mulDouble (toDouble 1) (toDouble (1 / 20)) = 3602879701896397 / 72057594037927936"
    by (simp add: mulDouble_def unit_cost_execution) (simp add: double_eval)
  have s1: "addDouble (8070450532247929 / 1152921504606846976)
      (2767011611056433 / 9223372036854775808) = 8416326983629983 / 1152921504606846976"
    by (simp add: addDouble_def) (simp add: double_eval)
  have s2: "addDouble (8416326983629983 / 1152921504606846976)
      (3602879701896397 / 72057594037927936) = 4128900138373271 / 72057594037927936"
    by (simp add: addDouble_def) (simp add: double_eval)
  have "totalCost (calculateDailyCosts (Some 7) (Some 3) (Some 1)) =
      4128900138373271 / 72057594037927936"
    by (simp add: calculateDailyCosts_def Let_def p1 p2 p3 s1 s2)
  moreover have "toDouble (573 / 10000) = 8257800276746541 / 144115188075855872"
    by (simp add: double_eval)
  ultimately show ?thesis by simp
qed

text \<open>
  Claim C9. For 10000 transfers, 5000 messages and 500 executions, which are also the
  defaults, \<open>calculateDailyCosts\<close> returns a total cost of exactly 35.5, the value of
  \<open>10000 * 0.001 + 5000 * 0.0001 + 500 * 0.05\<close>, from costs of 10, 0.5 and 25. For any
  counts the total is the sum, taken in the arithmetic of JavaScript numbers, of each count
  times the unit cost of its class: 0.001 for a transfer, 0.0001 for a message and 0.05 for
  an execution; for counts that are not negative it is the exact sum of these products up
  to one part in \<open>2\<^sup>5\<^sup>0\<close>.
\<close>

theorem calculateDailyCosts_total:
  "totalCost (calculateDailyCosts (Some 10000) (Some 5000) (Some 500)) = 35.5
   \<and> (35.5 :: rat) = 10000 * (1 / 1000) + 5000 * (1 / 10000) + 500 * (5 / 100)
   \<and> htsTransfers (calculateDailyCosts (Some 10000) (Some 5000) (Some 500)) = 10
   \<and> hcsMessages (calculateDailyCosts (Some 10000) (Some 5000) (Some 500)) = 0.5
   \<and> contractExecutions (calculateDailyCosts (Some 10000) (Some 5000) (Some 500)) = 25
   \<and> calculateDailyCosts None None None = calculateDailyCosts (Some 10000) (Some 5000) (Some 500)
   \<and> totalCost (calculateDailyCosts (Some htsCount) (Some hcsCount) (Some hscsCount)) =
        addDouble
          (addDouble (mulDouble (toDouble (of_int htsCount)) (toDouble (1 / 1000)))
                     (mulDouble (toDouble (of_int hcsCount)) (toDouble (1 / 10000))))
          (mulDouble (toDouble (of_int hscsCount)) (toDouble (5 / 100)))
   \<and> (0 \<le> htsCount \<and> 0 \<le> hcsCount \<and> 0 \<le> hscsCount \<longrightarrow>
        \<bar>totalCost (calculateDailyCosts (Some htsCount) (Some hcsCount) (Some hscsCount))
           - (of_int htsCount * (1 / 1000) + of_int hcsCount * (1 / 10000)
               + of_int hscsCount * (5 / 100))\<bar>
        \<le> (of_int htsCount * (1 / 1000) + of_int hcsCount * (1 / 10000)
               + of_int hscsCount * (5 / 100)) / 2 ^ 50)"
proof -
  have e: "calculateDailyCosts (Some 10000) (Some 5000) (Some 500) =
      \<lparr>htsTransfers = 10, hcsMessages = 1 / 2, contractExecutions = 25, totalCost = 71 / 2\<rparr>"
    by (simp add: calculateDailyCosts_def Let_def htsCost_example hcsCost_example
        hscsCost_example totalCost_example)
  have d: "calculateDailyCosts None None None =
      calculateDailyCosts (Some 10000) (Some 5000) (Some 500)"
    by (simp add: calculateDailyCosts_def)
  have g: "totalCost (calculateDailyCosts (Some htsCount) (Some hcsCount) (Some hscsCount)) =
        addDouble
          (addDouble (mulDouble (toDouble (of_int htsCount)) (toDouble (1 / 1000)))
                     (mulDouble (toDouble (of_int hcsCount)) (toDouble (1 / 10000))))
          (mulDouble (toDouble (of_int hscsCount)) (toDouble (5 / 100)))"
    by (simp add: calculateDailyCosts_def Let_def)
  have a: "\<bar>totalCost (calculateDailyCosts (Some htsCount) (Some hcsCount) (Some hscsCount))
           - (of_int htsCount * (1 / 1000) + of_int hcsCount * (1 / 10000)
               + of_int hscsCount * (5 / 100))\<bar>
        \<le> (of_int htsCount * (1 / 1000) + of_int hcsCount * (1 / 10000)
               + of_int hscsCount * (5 / 100)) / 2 ^ 50"
    if "0 \<le> htsCount \<and> 0 \<le> hcsCount \<and> 0 \<le> hscsCount"
    using that by (intro totalCost_accuracy) simp_all
  have e1: "totalCost (calculateDailyCosts (Some 10000) (Some 5000) (Some 500)) = 35.5"
    "htsTransfers (calculateDailyCosts (Some 10000) (Some 5000) (Some 500)) = 10"
    "hcsMessages (calculateDailyCosts (Some 10000) (Some 5000) (Some 500)) = 0.5"
    "contractExecutions (calculateDailyCosts (Some 10000) (Some 5000) (Some 500)) = 25"
    by (simp_all add: e)
  have x: "(35.5 :: rat) = 10000 * (1 / 1000) + 5000 * (1 / 10000) + 500 * (5 / 100)"
    by simp
  from e1 x d g a show ?thesis by blast
qed

text \<open>
  Seven transfers, three messages and one execution: the total, \<open>0.057300000000000004\<close>,
  is within one part in \<open>2\<^sup>5\<^sup>0\<close> of the exact \<open>0.0573\<close>.
\<close>

theorem calculateDailyCosts_total_witness:
  "(0::int) \<le> 7 \<and> (0::int) \<le> 3 \<and> (0::int) \<le> 1
   \<and> \<bar>totalCost (calculateDailyCosts (Some 7) (Some 3) (Some 1)) - 573 / 10000\<bar>
       \<le> (573 / 10000) / 2 ^ 50"
proof -
  have h: "(0::int) \<le> 7 \<and> (0::int) \<le> 3 \<and> (0::int) \<le> 1" by simp
  from calculateDailyCosts_total [of 7 3 1] h
  have "\<bar>totalCost (calculateDailyCosts (Some 7) (Some 3) (Some 1))
           - (of_int 7 * (1 / 1000) + of_int 3 * (1 / 10000) + of_int 1 * (5 / 100))\<bar>
        \<le> (of_int 7 * (1 / 1000) + of_int 3 * (1 / 10000) + of_int 1 * (5 / 100)) / 2 ^ 50"
    by blast
  moreover have "(of_int 7 * (1 / 1000) + of_int 3 * (1 / 10000) + of_int 1 * (5 / 100) :: rat)
      = 573 / 10000"
    by simp
  ultimately have "\<bar>totalCost (calculateDailyCosts (Some 7) (Some 3) (Some 1)) - 573 / 10000\<bar>
       \<le> (573 / 10000) / 2 ^ 50"
    by (simp only:)
  with h show ?thesis by blast
qed

end
